theory Spec2Isabelle
  imports Complex_Main "HOL-Library.Char_ord" "HOL-Library.List_Lexorder"
begin

chapter \<open>The ADASS2019 cross-language benchmark: kernels and timing driver\<close>

section \<open>Python values shared by the kernels and the driver\<close>

text \<open>
  The exceptions the modelled code can raise. \<open>IndexError\<close> is an element access out of
  the array's bounds, \<open>ValueError\<close> is numpy's failure to broadcast two shapes or
  \<^verbatim>\<open>list.index\<close> not finding its argument, \<open>ZeroDivisionError\<close> is Python's float
  division by zero, \<open>TypeError\<close> is a string operation on a bytes object, and
  \<open>SystemExit n\<close> is \<^verbatim>\<open>sys.exit(n)\<close>, which ends the program unless caught.
\<close>

datatype error = IndexError | ValueError | ZeroDivisionError | TypeError | SystemExit int

text \<open>
  A statement either completes with a new state or raises with the state it had reached:
  what was written before the exception stays written.
\<close>

datatype 's outcome = Done 's | Raised error 's

fun state_of :: "'s outcome \<Rightarrow> 's" where
  "state_of (Done s) = s"
| "state_of (Raised e s) = s"

text \<open>\<^verbatim>\<open>for i in xs: body\<close>, stopping at the first exception.\<close>

fun for_loop :: "'i list \<Rightarrow> ('i \<Rightarrow> 's \<Rightarrow> 's outcome) \<Rightarrow> 's \<Rightarrow> 's outcome" where
  "for_loop [] body s = Done s"
| "for_loop (i # is) body s =
     (case body i s of
        Done s' \<Rightarrow> for_loop is body s'
      | Raised e s' \<Rightarrow> Raised e s')"

text \<open>\<^verbatim>\<open>range(n)\<close>: empty when \<open>n\<close> is zero or negative.\<close>

definition py_range :: "int \<Rightarrow> nat list" where
  "py_range n = [0..<nat n]"

section \<open>The kernels (csub.py, csubnp-numba.py, csubnpv.py, csubnpna.py)\<close>

subsection \<open>numpy arrays and the store\<close>

text \<open>
  A two-dimensional numpy array is its shape and its elements by (row, column). Elements
  outside the shape are never read by the model and are kept by every write, so that two
  arrays are equal when their shapes and their elements within the shape are.

  Arrays are objects: \<open>subr\<close> gets references to them and mutates \<open>out\<close> in place. The
  store maps an object's identity to its current contents; two parameters that are the
  same object are the same address.
\<close>

record 'a ndarray =
  nrows :: nat
  ncols :: nat
  elems :: "nat \<Rightarrow> nat \<Rightarrow> 'a"

type_synonym addr = nat
type_synonym 'a store = "addr \<Rightarrow> 'a ndarray"

text \<open>\<^verbatim>\<open>a[iy,ix]\<close> and \<^verbatim>\<open>a[iy,ix] = v\<close> for non-negative indices.\<close>

definition getitem :: "'a ndarray \<Rightarrow> nat \<Rightarrow> nat \<Rightarrow> error + 'a" where
  "getitem a iy ix =
     (if iy < nrows a \<and> ix < ncols a then Inr (elems a iy ix) else Inl IndexError)"

definition setitem :: "'a ndarray \<Rightarrow> nat \<Rightarrow> nat \<Rightarrow> 'a \<Rightarrow> error + 'a ndarray" where
  "setitem a iy ix v =
     (if iy < nrows a \<and> ix < ncols a
      then Inr (a\<lparr>elems := (elems a)(iy := (elems a iy)(ix := v))\<rparr>)
      else Inl IndexError)"

subsection \<open>csub.py: the element-by-element kernel\<close>

text \<open>
  The element type of the arrays is left open: \<open>add\<close> is its addition and \<open>cv\<close> turns a
  Python integer index into an element (for a float64 array, the rounding addition and
  the int-to-float conversion). The assignment
  \<^verbatim>\<open>out[iy,ix] = ina[iy,ix] + ix + iy\<close> reads \<open>ina\<close> in the current store, adds
  \<open>ix\<close> and then \<open>iy\<close>, and writes \<open>out\<close>.
\<close>

definition subr_assign ::
  "('a \<Rightarrow> 'a \<Rightarrow> 'a) \<Rightarrow> (nat \<Rightarrow> 'a) \<Rightarrow> addr \<Rightarrow> addr \<Rightarrow> nat \<Rightarrow> nat \<Rightarrow> 'a store \<Rightarrow> 'a store outcome" where
  "subr_assign add cv ina out iy ix s =
     (case getitem (s ina) iy ix of
        Inl e \<Rightarrow> Raised e s
      | Inr v \<Rightarrow>
          (case setitem (s out) iy ix (add (add v (cv ix)) (cv iy)) of
             Inl e \<Rightarrow> Raised e s
           | Inr a \<Rightarrow> Done (s(out := a))))"

definition subr ::
  "('a \<Rightarrow> 'a \<Rightarrow> 'a) \<Rightarrow> (nat \<Rightarrow> 'a) \<Rightarrow> addr \<Rightarrow> int \<Rightarrow> int \<Rightarrow> addr \<Rightarrow> 'a store \<Rightarrow> 'a store outcome" where
  "subr add cv ina nx ny out =
     for_loop (py_range ny) (\<lambda>iy.
       for_loop (py_range nx) (\<lambda>ix.
         subr_assign add cv ina out iy ix))"

subsection \<open>csubnp-numba.py: the same loop under \<^verbatim>\<open>@numba.jit\<close>\<close>


subsection \<open>csubnpv.py: one vector operation per row or per column\<close>











subsection \<open>csubnpna.py: one broadcast expression\<close>








text \<open>
  The store in which every cell \<open>(i, j)\<close> of \<open>out\<close> with \<open>i < ny\<close> and \<open>j < nx\<close> holds the
  element of \<open>ina\<close> at the call plus \<open>j\<close> plus \<open>i\<close>, and nothing else has changed.
\<close>

definition kernel_image ::
  "('a \<Rightarrow> 'a \<Rightarrow> 'a) \<Rightarrow> (nat \<Rightarrow> 'a) \<Rightarrow> addr \<Rightarrow> nat \<Rightarrow> nat \<Rightarrow> addr \<Rightarrow> 'a store \<Rightarrow> 'a store" where
  "kernel_image add cv ina nx ny out s =
     s(out := (s out)\<lparr>elems := \<lambda>i j. if i < ny \<and> j < nx
        then add (add (elems (s ina) i j) (cv j)) (cv i) else elems (s out) i j\<rparr>)"


subsection \<open>Element arithmetic: exact integers and float64\<close>







section \<open>The timing driver (Run.py)\<close>

subsection \<open>Strings\<close>

text \<open>
  A Python \<^verbatim>\<open>str\<close> is represented by its UTF-8 encoding, a \<open>string\<close> of bytes;
  concatenation, comparison and splitting at ASCII characters are the same on both.
  \<^verbatim>\<open>s.split()\<close> cuts at runs of white space (the ASCII white space here) and
  \<^verbatim>\<open>s.split("\n")\<close> cuts at every newline.
\<close>

definition is_space :: "char \<Rightarrow> bool" where
  "is_space c = (c \<in> set [CHR '' '', CHR 0x09, CHR 0x0A, CHR 0x0B, CHR 0x0C, CHR 0x0D,
                           CHR 0x1C, CHR 0x1D, CHR 0x1E, CHR 0x1F])"

fun words_acc :: "string \<Rightarrow> string \<Rightarrow> string list" where
  "words_acc cur [] = (if cur = [] then [] else [cur])"
| "words_acc cur (c # cs) =
     (if is_space c then (if cur = [] then words_acc [] cs else cur # words_acc [] cs)
      else words_acc (cur @ [c]) cs)"

definition split_ws :: "string \<Rightarrow> string list" where
  "split_ws s = words_acc [] s"

fun split_nl :: "string \<Rightarrow> string list" where
  "split_nl [] = [[]]"
| "split_nl (c # cs) =
     (if c = CHR 0x0A then [] # split_nl cs
      else (case split_nl cs of [] \<Rightarrow> [[c]] | l # ls \<Rightarrow> (c # l) # ls))"

text \<open>\<^verbatim>\<open>"%d" % n\<close> and \<^verbatim>\<open>str(n)\<close>: the decimal digits of an integer.\<close>

fun digits :: "nat \<Rightarrow> string" where
  "digits n = (if n < 10 then [''0123456789'' ! n]
               else digits (n div 10) @ [''0123456789'' ! (n mod 10)])"

declare digits.simps [simp del]

definition str_int :: "int \<Rightarrow> string" where
  "str_int n = (if n < 0 then CHR ''-'' # digits (nat (- n)) else digits (nat n))"

text \<open>\<^verbatim>\<open>s.lower()\<close>, on the ASCII letters.\<close>

definition lower_char :: "char \<Rightarrow> char" where
  "lower_char c =
     (case map_of (zip ''ABCDEFGHIJKLMNOPQRSTUVWXYZ'' ''abcdefghijklmnopqrstuvwxyz'') c of
        Some l \<Rightarrow> l
      | None \<Rightarrow> c)"

definition lower :: "string \<Rightarrow> string" where
  "lower s = map lower_char s"

text \<open>
  \<^verbatim>\<open>b.decode('utf-8')\<close> succeeds on the byte strings that are well-formed UTF-8: no stray
  or missing continuation byte, no overlong form, no surrogate, nothing beyond U+10FFFF.
  A decoded string is then represented by the same bytes.
\<close>

definition cont :: "nat \<Rightarrow> bool" where
  "cont b = (128 \<le> b \<and> b < 192)"

fun utf8_ok :: "nat list \<Rightarrow> bool" where
  "utf8_ok [] = True"
| "utf8_ok (b # bs) =
     (if b < 128 then utf8_ok bs
      else if 194 \<le> b \<and> b < 224 then
        (case bs of c1 # r \<Rightarrow> cont c1 \<and> utf8_ok r | _ \<Rightarrow> False)
      else if 224 \<le> b \<and> b < 240 then
        (case bs of
           c1 # c2 # r \<Rightarrow>
             cont c1 \<and> cont c2 \<and> (if b = 224 then 160 \<le> c1 else True) \<and>
             (if b = 237 then c1 < 160 else True) \<and> utf8_ok r
         | _ \<Rightarrow> False)
      else if 240 \<le> b \<and> b < 245 then
        (case bs of
           c1 # c2 # c3 # r \<Rightarrow>
             cont c1 \<and> cont c2 \<and> cont c3 \<and> (if b = 240 then 144 \<le> c1 else True) \<and>
             (if b = 244 then c1 < 144 else True) \<and> utf8_ok r
         | _ \<Rightarrow> False)
      else False)"

definition decodes :: "string \<Rightarrow> bool" where
  "decodes b = utf8_ok (map of_char b)"

subsection \<open>The world outside the program\<close>

text \<open>
  What a spawned command does is not the program's: \<open>os\<close> answers, for the commands run
  so far and the argument list now given to \<^verbatim>\<open>subprocess.Popen\<close>, what the attempt
  comes to and by how many seconds the wall clock (\<^verbatim>\<open>datetime.datetime.now()\<close>) has
  moved when it is over. \<open>Finished out err status\<close> is a process that ran: the bytes it
  wrote to standard output and standard error and its exit status. \<open>SpawnFailed\<close> is
  \<^verbatim>\<open>Popen\<close> raising, \<open>Interrupted\<close> is a \<^verbatim>\<open>KeyboardInterrupt\<close> while the program waits.
\<close>

datatype proc = Finished string string int | SpawnFailed | Interrupted

type_synonym os = "string list list \<Rightarrow> string list \<Rightarrow> proc \<times> real"

text \<open>
  What \<^verbatim>\<open>ExecuteCommand\<close> hands back as \<open>Output\<close> and \<open>Errors\<close>: a \<^verbatim>\<open>str\<close>, or the
  \<^verbatim>\<open>bytes\<close> object that \<^verbatim>\<open>communicate()\<close> returned where no decoding replaced it.
\<close>

datatype pyout = Str string | Bytes string

text \<open>
  A line on the terminal is the \<^verbatim>\<open>print\<close> call that wrote it, with its arguments
  before formatting. \<open>Text items\<close> prints strings, separated by single spaces.
  \<open>Fixed2 r\<close> is \<^verbatim>\<open>"%.2f" % r\<close> and \<open>Empty\<close> the empty string; a \<open>CsvRow\<close> is its
  label followed by a comma and a field for every column.
\<close>

datatype field = Empty | Fixed2 real

datatype line =
    Text "string list"
  | ErrorLine string string string pyout
  | TimingLine string string int real real
  | SummaryLine string string real real
  | CsvRow string "field list"

record world =
  history :: "string list list"
  clock :: real
  terminal :: "line list"

definition print :: "line \<Rightarrow> world \<Rightarrow> world" where
  "print l w = w\<lparr>terminal := terminal w @ [l]\<rparr>"

text \<open>A call that returns a value, or raises, in the world it leaves behind.\<close>

datatype ('a, 's) result = Return 'a 's | Raise error 's

text \<open>Python's float division raises on a zero divisor.\<close>

definition py_div :: "real \<Rightarrow> real \<Rightarrow> error + real" where
  "py_div x y = (if y = 0 then Inl ZeroDivisionError else Inr (x / y))"

text \<open>\<^verbatim>\<open>if (Status)\<close>: \<^verbatim>\<open>None\<close> and the empty string are false.\<close>

definition truthy :: "string option \<Rightarrow> bool" where
  "truthy Status = (case Status of None \<Rightarrow> False | Some s \<Rightarrow> s \<noteq> [])"

definition str_status :: "string option \<Rightarrow> string" where
  "str_status Status = (case Status of None \<Rightarrow> ''None'' | Some s \<Rightarrow> s)"

subsection \<open>ExecuteCommand\<close>

text \<open>
  Every caller passes the command as one string. The status of a failure is
  \<^verbatim>\<open>"Error executing '" + str(Command) + "'"\<close>. Inside the \<^verbatim>\<open>try\<close>, the two
  \<^verbatim>\<open>decode\<close> calls come before the exit status is read, and the bare \<^verbatim>\<open>except\<close>
  takes every exception but the interrupt, which ends the program with status 0.
\<close>

definition error_status :: "string \<Rightarrow> string" where
  "error_status Command = ''Error executing '' @ [CHR 0x27] @ Command @ [CHR 0x27]"

definition ExecuteCommand ::
  "os \<Rightarrow> string \<Rightarrow> world \<Rightarrow> (string option \<times> pyout \<times> pyout, world) result" where
  "ExecuteCommand os Command w =
     (let CommandList = split_ws Command;
          answer = os (history w) CommandList;
          w' = w\<lparr>history := history w @ [CommandList], clock := clock w + snd answer\<rparr>
      in case fst answer of
           Interrupted \<Rightarrow> Raise (SystemExit 0) w'
         | SpawnFailed \<Rightarrow> Return (Some (error_status Command), Str [], Str []) w'
         | Finished rawout rawerr Result \<Rightarrow>
             if \<not> decodes rawout then
               Return (Some (error_status Command), Bytes rawout, Bytes rawerr) w'
             else if \<not> decodes rawerr then
               Return (Some (error_status Command), Str rawout, Bytes rawerr) w'
             else if Result \<noteq> 0 then
               Return (Some (error_status Command), Str rawout, Str rawerr) w'
             else Return (None, Str rawout, Str rawerr) w')"

subsection \<open>BuildAndTimeProgram\<close>

text \<open>
  The build stage: the first build command if there is one, and the second if the first
  succeeded. With no build command \<open>Errors\<close> is not yet bound in the source; the empty
  string stands for it and is always overwritten by the runs that follow.
\<close>

definition build ::
  "os \<Rightarrow> string \<Rightarrow> string \<Rightarrow> world \<Rightarrow> (string option \<times> pyout, world) result" where
  "build os BuildCommand1 BuildCommand2 w =
     (if BuildCommand1 \<noteq> [] then
        (case ExecuteCommand os BuildCommand1 w of
           Raise e w1 \<Rightarrow> Raise e w1
         | Return (Status, Output, Errors) w1 \<Rightarrow>
             if Status = None then
               (if BuildCommand2 \<noteq> [] then
                  (case ExecuteCommand os BuildCommand2 w1 of
                     Raise e w2 \<Rightarrow> Raise e w2
                   | Return (Status2, Output2, Errors2) w2 \<Rightarrow> Return (Status2, Errors2) w2)
                else Return (Status, Errors) w1)
             else Return (Status, Errors) w1)
      else Return (None, Str []) w)"

text \<open>\<^verbatim>\<open>"%s %d %d %d" % (ExecCommand,Nrpt,Nx,Ny)\<close>\<close>

definition run_command :: "string \<Rightarrow> int \<Rightarrow> int \<Rightarrow> int \<Rightarrow> string" where
  "run_command ExecCommand Nrpt Nx Ny =
     ExecCommand @ '' '' @ str_int Nrpt @ '' '' @ str_int Nx @ '' '' @ str_int Ny"

text \<open>
  The two timed runs. The status and errors of the second run replace those of the
  first, and \<open>Secs\<close> becomes
  \<^verbatim>\<open>(Secs - Elapsed.total_seconds()) * float(Nrpt) / float(Nrpt - 1)\<close>. Times are exact
  reals: the rounding of float64 arithmetic on them is not modelled.
\<close>

definition time_program ::
  "os \<Rightarrow> string \<Rightarrow> int \<Rightarrow> int \<Rightarrow> int \<Rightarrow> world \<Rightarrow> (string option \<times> real \<times> pyout, world) result" where
  "time_program os ExecCommand Nrpt Nx Ny w =
     (let Start = clock w in
      case ExecuteCommand os (run_command ExecCommand Nrpt Nx Ny) w of
        Raise e w1 \<Rightarrow> Raise e w1
      | Return (Status1, Output1, Errors1) w1 \<Rightarrow>
          (let End = clock w1; Secs = End - Start; Start2 = clock w1 in
           case ExecuteCommand os (run_command ExecCommand 1 Nx Ny) w1 of
             Raise e w2 \<Rightarrow> Raise e w2
           | Return (Status, Output, Errors) w2 \<Rightarrow>
               (let End2 = clock w2; Elapsed = End2 - Start2 in
                case py_div ((Secs - Elapsed) * real_of_int Nrpt) (real_of_int (Nrpt - 1)) of
                  Inl e \<Rightarrow> Raise e w2
                | Inr Secs' \<Rightarrow> Return (Status, Secs', Errors) w2)))"

definition cleanup ::
  "os \<Rightarrow> string \<Rightarrow> string option \<Rightarrow> real \<Rightarrow> pyout \<Rightarrow> world \<Rightarrow>
     (string option \<times> real \<times> pyout, world) result" where
  "cleanup os CleanupCommand Status Secs Errors w =
     (if CleanupCommand \<noteq> [] then
        (case ExecuteCommand os CleanupCommand w of
           Raise e w1 \<Rightarrow> Raise e w1
         | Return (CleanStatus, Output, CleanErrors) w1 \<Rightarrow>
             if Status = None then Return (CleanStatus, Secs, CleanErrors) w1
             else Return (Status, Secs, Errors) w1)
      else Return (Status, Secs, Errors) w)"

definition BuildAndTimeProgram ::
  "os \<Rightarrow> string \<Rightarrow> string \<Rightarrow> string \<Rightarrow> int \<Rightarrow> int \<Rightarrow> int \<Rightarrow> string \<Rightarrow> world \<Rightarrow>
     (string option \<times> real \<times> pyout, world) result" where
  "BuildAndTimeProgram os BuildCommand1 BuildCommand2 ExecCommand Nrpt0 Nx Ny CleanupCommand w =
     (let Nrpt = (if Nrpt0 < 2 then 2 else Nrpt0) in
      case build os BuildCommand1 BuildCommand2 w of
        Raise e w1 \<Rightarrow> Raise e w1
      | Return (Status, Errors) w1 \<Rightarrow>
          (case (if Status = None then time_program os ExecCommand Nrpt Nx Ny w1
                 else Return (Status, 0, Errors) w1) of
             Raise e w2 \<Rightarrow> Raise e w2
           | Return (Status', Secs, Errors') w2 \<Rightarrow>
               cleanup os CleanupCommand Status' Secs Errors' w2))"

subsection \<open>ListVersion\<close>

definition ListVersion :: "os \<Rightarrow> string \<Rightarrow> string \<Rightarrow> world \<Rightarrow> world outcome" where
  "ListVersion os Lang Command w =
     (case ExecuteCommand os Command w of
        Raise e w1 \<Rightarrow> Raised e w1
      | Return (Status, Output, Errors) w1 \<Rightarrow>
          if truthy Status then
            Done (print (Text [''Unable to get version for'', Lang, '':'', str_status Status]) w1)
          else
            (case (Output, Errors) of
               (Str out, Str err) \<Rightarrow>
                 (let OutputLines = split_nl out;
                      ErrorLines = split_nl err;
                      w2 = (if length OutputLines > 0 \<and> OutputLines ! 0 \<noteq> []
                            then print (Text [Lang, '':'', OutputLines ! 0]) w1 else w1);
                      w3 = (if length ErrorLines > 0 \<and> ErrorLines ! 0 \<noteq> []
                            then print (Text [Lang, '':'', ErrorLines ! 0]) w2 else w2)
                  in Done w3)
             | _ \<Rightarrow> Raised TypeError w1))"

subsection \<open>Test descriptions\<close>

text \<open>
  A test is the list of seven items the source describes: language and technique,
  compiler and options, two build commands, the run command, the repeat count and the
  cleanup command. The driver works on any list of them; four of the source's are here.
\<close>

record test =
  lang_tech :: string
  comp_opt :: string
  build_cmd1 :: string
  build_cmd2 :: string
  exec_cmd :: string
  nrpt :: int
  cleanup_cmd :: string

definition RawCclangO :: test where
  "RawCclangO = \<lparr>lang_tech = ''C : raw'', comp_opt = ''clang -O'',
     build_cmd1 = ''c++ -c -O csub.cpp -o csub.o'',
     build_cmd2 = ''c++ -o cmain -O cmain.cpp csub.o'',
     exec_cmd = ''./cmain'', nrpt = 1000000, cleanup_cmd = ''rm -f cmain csub.o''\<rparr>"

definition Tcl :: test where
  "Tcl = \<lparr>lang_tech = ''Tcl : raw'', comp_opt = ''tclsh'', build_cmd1 = [], build_cmd2 = [],
     exec_cmd = ''tclsh ctest.tcl'', nrpt = 200, cleanup_cmd = []\<rparr>"

definition Python3 :: test where
  "Python3 = \<lparr>lang_tech = ''Python : lists'', comp_opt = ''Python3'', build_cmd1 = [],
     build_cmd2 = [], exec_cmd = ''python3 csubraw.py'', nrpt = 1000, cleanup_cmd = []\<rparr>"

definition Python3vec :: test where
  "Python3vec = \<lparr>lang_tech = ''Python : vectors'', comp_opt = ''Python3'', build_cmd1 = [],
     build_cmd2 = [], exec_cmd = ''python3 csubnpv.py'', nrpt = 50000, cleanup_cmd = []\<rparr>"

subsection \<open>The main program: versions\<close>

definition versions :: "(string \<times> string) list" where
  "versions =
     [(''Clang    '', ''c++ --version''), (''Assembler'', ''c++ --version''),
      (''Gcc      '', ''g++ --version''), (''Gfortran '', ''gfortran --version''),
      (''R        '', ''Rscript --version''), (''Python2  '', ''python --version''),
      (''Python3  '', ''python3 --version''), (''Java     '', ''java -version''),
      (''Node.js  '', ''node --version''), (''Tcl      '', ''tclsh ver.tcl''),
      (''Swift    '', ''xcrun swiftc --version''), (''Julia    '', ''julia --version''),
      (''Rust     '', ''rustc --version''), (''Perl/PDL '', ''pdl -V'')]"

definition list_versions :: "os \<Rightarrow> world \<Rightarrow> world outcome" where
  "list_versions os w =
     for_loop versions (\<lambda>(Lang, Command). ListVersion os Lang Command)
       (print (Text [[]]) (print (Text [''Versions:'']) (print (Text [[]]) w)))"

subsection \<open>The main program: the table of results\<close>

text \<open>
  The labels of the rows and columns: every language/technique and every
  compiler/options of the tests, once each, sorted by their lower-case forms
  (\<^verbatim>\<open>sorted\<close> is stable, as \<open>sort_key\<close> is).
\<close>

definition add_new :: "'a \<Rightarrow> 'a list \<Rightarrow> 'a list" where
  "add_new x xs = (if x \<in> set xs then xs else xs @ [x])"

definition LangTechList :: "test list \<Rightarrow> string list" where
  "LangTechList FullTests =
     sort_key lower (foldl (\<lambda>L Test. add_new (lang_tech Test) L) [] FullTests)"

definition CompOptList :: "test list \<Rightarrow> string list" where
  "CompOptList FullTests =
     sort_key lower (foldl (\<lambda>L Test. add_new (comp_opt Test) L) [] FullTests)"

text \<open>\<^verbatim>\<open>xs.index(x)\<close> and \<^verbatim>\<open>xs[i]\<close> for a list.\<close>

fun index_of :: "'a list \<Rightarrow> 'a \<Rightarrow> error + nat" where
  "index_of [] x = Inl ValueError"
| "index_of (y # ys) x =
     (if y = x then Inr 0
      else (case index_of ys x of Inl e \<Rightarrow> Inl e | Inr i \<Rightarrow> Inr (Suc i)))"

definition list_get :: "'a list \<Rightarrow> nat \<Rightarrow> error + 'a" where
  "list_get xs i = (if i < length xs then Inr (xs ! i) else Inl IndexError)"

definition zeros :: "nat \<Rightarrow> nat \<Rightarrow> real ndarray" where
  "zeros r c = \<lparr>nrows = r, ncols = c, elems = \<lambda>i j. 0\<rparr>"

text \<open>
  The recording of one result: \<open>Results[LangTechIndex,CompOptIndex]\<close> takes
  \<open>KIterSecs\<close> when \<open>KIterSecs\<close> is positive and the cell is not positive yet or holds
  more.
\<close>

definition record_result ::
  "real ndarray \<Rightarrow> nat \<Rightarrow> nat \<Rightarrow> real \<Rightarrow> error + real ndarray" where
  "record_result Results LangTechIndex CompOptIndex KIterSecs =
     (if KIterSecs > 0 then
        (case getitem Results LangTechIndex CompOptIndex of
           Inl e \<Rightarrow> Inl e
         | Inr LowestSoFar \<Rightarrow>
             if LowestSoFar \<le> 0 then setitem Results LangTechIndex CompOptIndex KIterSecs
             else if KIterSecs < LowestSoFar
               then setitem Results LangTechIndex CompOptIndex KIterSecs
             else Inr Results)
      else Inr Results)"

text \<open>
  The body of the loop over the tests. The repeat count that divides \<open>Secs\<close> is the
  description's own, \<^verbatim>\<open>Test[5]\<close>, not the one \<open>BuildAndTimeProgram\<close> raised to two.
\<close>

definition run_test ::
  "os \<Rightarrow> int \<Rightarrow> int \<Rightarrow> string list \<Rightarrow> string list \<Rightarrow> test \<Rightarrow>
     real ndarray \<times> world \<Rightarrow> (real ndarray \<times> world) outcome" where
  "run_test os Nx Ny LangTechs CompOpts Test st =
     (case st of (Results, w) \<Rightarrow>
        (let LangTech = lang_tech Test; CompOpt = comp_opt Test; Nrpt = nrpt Test in
         case BuildAndTimeProgram os (build_cmd1 Test) (build_cmd2 Test) (exec_cmd Test)
                Nrpt Nx Ny (cleanup_cmd Test) w of
           Raise e w1 \<Rightarrow> Raised e (Results, w1)
         | Return (Status, Secs, Errors) w1 \<Rightarrow>
             if truthy Status then
               Done (Results, print (ErrorLine LangTech CompOpt (str_status Status) Errors) w1)
             else
               (case py_div Secs (real_of_int Nrpt) of
                  Inl e \<Rightarrow> Raised e (Results, w1)
                | Inr q \<Rightarrow>
                    (let KIterSecs = q * 1000;
                         w2 = print (TimingLine LangTech CompOpt Nrpt Secs KIterSecs) w1
                     in case index_of LangTechs LangTech of
                          Inl e \<Rightarrow> Raised e (Results, w2)
                        | Inr LangTechIndex \<Rightarrow>
                            (case index_of CompOpts CompOpt of
                               Inl e \<Rightarrow> Raised e (Results, w2)
                             | Inr CompOptIndex \<Rightarrow>
                                 (case record_result Results LangTechIndex CompOptIndex
                                         KIterSecs of
                                    Inl e \<Rightarrow> Raised e (Results, w2)
                                  | Inr Results' \<Rightarrow> Done (Results', w2)))))))"

definition announce :: "int \<Rightarrow> int \<Rightarrow> int \<Rightarrow> nat \<Rightarrow> world \<Rightarrow> world" where
  "announce Ntests Nx Ny ITest w =
     (let w1 = print (Text [[]]) w;
          w2 = (if Ntests > 1
                then print (Text [''Starting pass'', str_int (int ITest + 1), ''of'',
                                  str_int Ntests, ''through full set of tests'']) w1
                else print (Text [''Running through full set of timing tests'']) w1);
          w3 = print (Text [[]]) w2;
          w4 = print (Text [''Arrays used:'', str_int Nx, ''columns,'', str_int Ny, ''rows'']) w3
      in print (Text [[]]) w4)"

definition run_pass ::
  "os \<Rightarrow> test list \<Rightarrow> int \<Rightarrow> int \<Rightarrow> int \<Rightarrow> nat \<Rightarrow>
     real ndarray \<times> world \<Rightarrow> (real ndarray \<times> world) outcome" where
  "run_pass os FullTests Ntests Nx Ny ITest st =
     for_loop FullTests (run_test os Nx Ny (LangTechList FullTests) (CompOptList FullTests))
       (fst st, announce Ntests Nx Ny ITest (snd st))"

definition run_passes ::
  "os \<Rightarrow> test list \<Rightarrow> int \<Rightarrow> int \<Rightarrow> int \<Rightarrow> world \<Rightarrow> (real ndarray \<times> world) outcome" where
  "run_passes os FullTests Ntests Nx Ny w =
     for_loop (py_range Ntests) (run_pass os FullTests Ntests Nx Ny)
       (zeros (length (LangTechList FullTests)) (length (CompOptList FullTests)), w)"

subsection \<open>The main program: the benchmark and the report\<close>

text \<open>
  The search for the lowest positive entry. Its state is \<open>First\<close>, \<open>FastestLangTech\<close>,
  \<open>FastestCompOpt\<close> and \<open>BenchKIterSecs\<close>.
\<close>

type_synonym bench = "bool \<times> string \<times> string \<times> real"

definition bench_cell ::
  "real ndarray \<Rightarrow> string list \<Rightarrow> string list \<Rightarrow> nat \<Rightarrow> nat \<Rightarrow> bench \<Rightarrow> bench outcome" where
  "bench_cell Results LangTechs CompOpts LangTechIndex CompOptIndex st =
     (case st of (First, FastestLangTech, FastestCompOpt, BenchKIterSecs) \<Rightarrow>
        (case getitem Results LangTechIndex CompOptIndex of
           Inl e \<Rightarrow> Raised e st
         | Inr Result \<Rightarrow>
             (let FastestSoFar =
                    (if Result > 0 then (if First then True else Result < BenchKIterSecs)
                     else False);
                  First' = (if Result > 0 then (if First then False else First) else First)
              in if FastestSoFar then
                   (case list_get LangTechs LangTechIndex of
                      Inl e \<Rightarrow> Raised e (First', FastestLangTech, FastestCompOpt, Result)
                    | Inr L \<Rightarrow>
                        (case list_get CompOpts CompOptIndex of
                           Inl e \<Rightarrow> Raised e (First', L, FastestCompOpt, Result)
                         | Inr C \<Rightarrow> Done (First', L, C, Result)))
                 else Done (First', FastestLangTech, FastestCompOpt, BenchKIterSecs))))"

definition find_benchmark ::
  "real ndarray \<Rightarrow> string list \<Rightarrow> string list \<Rightarrow> bench outcome" where
  "find_benchmark Results LangTechs CompOpts =
     for_loop [0..<length LangTechs] (\<lambda>LangTechIndex.
       for_loop [0..<length CompOpts] (\<lambda>CompOptIndex.
         bench_cell Results LangTechs CompOpts LangTechIndex CompOptIndex))
       (True, [], [], 1)"

text \<open>
  The summary: one line for every test, with its cell and the cell divided by the
  benchmark. The benchmark is positive (it is 1.0 or a positive entry), so the division
  is an ordinary one.
\<close>

definition summary_line ::
  "real ndarray \<Rightarrow> string list \<Rightarrow> string list \<Rightarrow> real \<Rightarrow> test \<Rightarrow> world \<Rightarrow> world outcome" where
  "summary_line Results LangTechs CompOpts BenchKIterSecs Test w =
     (let LangTech = lang_tech Test; CompOpt = comp_opt Test in
      case index_of LangTechs LangTech of
        Inl e \<Rightarrow> Raised e w
      | Inr LangTechIndex \<Rightarrow>
          (case index_of CompOpts CompOpt of
             Inl e \<Rightarrow> Raised e w
           | Inr CompOptIndex \<Rightarrow>
               (case getitem Results LangTechIndex CompOptIndex of
                  Inl e \<Rightarrow> Raised e w
                | Inr KIterSecs \<Rightarrow>
                    (let RelativeSpeed = KIterSecs / BenchKIterSecs
                     in Done (print (SummaryLine LangTech CompOpt KIterSecs RelativeSpeed) w)))))"

definition summary ::
  "test list \<Rightarrow> real ndarray \<Rightarrow> string list \<Rightarrow> string list \<Rightarrow> real \<Rightarrow> world \<Rightarrow> world outcome" where
  "summary FullTests Results LangTechs CompOpts BenchKIterSecs w =
     for_loop FullTests (summary_line Results LangTechs CompOpts BenchKIterSecs)
       (print (Text [[]]) (print (Text [''Summary of relative speeds:'']) (print (Text [[]]) w)))"

text \<open>
  The matrix in comma-separated form: a header with the row labels, then a line for
  every compiler/options with a field for every language/technique.
\<close>

definition csv_field ::
  "real ndarray \<Rightarrow> real \<Rightarrow> nat \<Rightarrow> nat \<Rightarrow> field list \<Rightarrow> field list outcome" where
  "csv_field Results BenchKIterSecs CompOptIndex LangTechIndex Line =
     (case getitem Results LangTechIndex CompOptIndex of
        Inl e \<Rightarrow> Raised e Line
      | Inr r \<Rightarrow>
          (let Result = r / BenchKIterSecs
           in Done (Line @ [if Result > 0 then Fixed2 Result else Empty])))"

definition csv_row ::
  "real ndarray \<Rightarrow> string list \<Rightarrow> string list \<Rightarrow> real \<Rightarrow> string \<Rightarrow> world \<Rightarrow> world outcome" where
  "csv_row Results LangTechs CompOpts BenchKIterSecs CompOpt w =
     (case index_of CompOpts CompOpt of
        Inl e \<Rightarrow> Raised e w
      | Inr CompOptIndex \<Rightarrow>
          (case for_loop [0..<length LangTechs]
                  (csv_field Results BenchKIterSecs CompOptIndex) [] of
             Raised e Line \<Rightarrow> Raised e w
           | Done Line \<Rightarrow> Done (print (CsvRow CompOpt Line) w)))"

definition csv ::
  "real ndarray \<Rightarrow> string list \<Rightarrow> string list \<Rightarrow> real \<Rightarrow> world \<Rightarrow> world outcome" where
  "csv Results LangTechs CompOpts BenchKIterSecs w =
     for_loop CompOpts (csv_row Results LangTechs CompOpts BenchKIterSecs)
       (print (Text [foldl (\<lambda>Line LangTech. Line @ '','' @ LangTech) ''Compiler'' LangTechs])
          (print (Text [[]]) w))"

text \<open>
  The program after its arguments are read: \<open>Ntests\<close>, \<open>Nx\<close> and \<open>Ny\<close> are the integers
  of the command line, or 1, 2000 and 10.
\<close>

definition main :: "os \<Rightarrow> test list \<Rightarrow> int \<Rightarrow> int \<Rightarrow> int \<Rightarrow> world \<Rightarrow> world outcome" where
  "main os FullTests Ntests Nx Ny w =
     (case list_versions os w of
        Raised e w1 \<Rightarrow> Raised e w1
      | Done w1 \<Rightarrow>
          (case run_passes os FullTests Ntests Nx Ny w1 of
             Raised e st \<Rightarrow> Raised e (snd st)
           | Done st \<Rightarrow>
               (let Results = fst st; w2 = snd st;
                    LangTechs = LangTechList FullTests; CompOpts = CompOptList FullTests
                in case find_benchmark Results LangTechs CompOpts of
                     Raised e b \<Rightarrow> Raised e w2
                   | Done (First, FastestLangTech, FastestCompOpt, BenchKIterSecs) \<Rightarrow>
                       (let w3 = print (Text [''Fastest combination is '', FastestLangTech,
                                              ''and'', FastestCompOpt]) w2
                        in case summary FullTests Results LangTechs CompOpts BenchKIterSecs w3 of
                             Raised e w4 \<Rightarrow> Raised e w4
                           | Done w4 \<Rightarrow> csv Results LangTechs CompOpts BenchKIterSecs w4))))"

subsection \<open>Notions for the statements about the driver\<close>

text \<open>
  \<open>ran os Command w\<close> is the world after \<open>Command\<close> was attempted in \<open>w\<close>: the command
  is in the history and the clock has moved. \<open>runs\<close> does so for a list of commands.
  A command succeeds when its process runs, writes well-formed UTF-8 and exits with
  status zero. \<open>builds\<close> and \<open>cleans\<close> are the build and cleanup commands that a test
  with these strings has (an empty string is no command, and there is no second build
  command without a first).
\<close>

definition ran :: "os \<Rightarrow> string \<Rightarrow> world \<Rightarrow> world" where
  "ran os Command w =
     w\<lparr>history := history w @ [split_ws Command],
       clock := clock w + snd (os (history w) (split_ws Command))\<rparr>"




definition runs :: "os \<Rightarrow> string list \<Rightarrow> world \<Rightarrow> world" where
  "runs os Commands w = foldl (\<lambda>w' Command. ran os Command w') w Commands"


text \<open>The world a call leaves behind, whether it returned or raised.\<close>

fun world_of :: "('a, 's) result \<Rightarrow> 's" where
  "world_of (Return r w) = w"
| "world_of (Raise e w) = w"

text \<open>
  The times observed for a pair of labels are the positive per-1000-iteration times on
  the timing lines that the driver printed for that pair; the best of them is the
  lowest, or zero if there is none. \<open>table_inv n0 LL CL (Results, w)\<close> says that the
  table has a row for every label of \<open>LL\<close> and a column for every label of \<open>CL\<close> and
  that each cell holds the best time among the lines printed after the first \<open>n0\<close>.
\<close>

definition observed :: "string \<Rightarrow> string \<Rightarrow> line list \<Rightarrow> real list" where
  "observed L C ls =
     concat (map (\<lambda>l. case l of
                TimingLine L' C' n secs k \<Rightarrow> if L' = L \<and> C' = C \<and> 0 < k then [k] else []
              | _ \<Rightarrow> []) ls)"

definition best :: "real list \<Rightarrow> real" where
  "best ks = (if ks = [] then 0 else Min (set ks))"

definition table_inv :: "nat \<Rightarrow> string list \<Rightarrow> string list \<Rightarrow> real ndarray \<times> world \<Rightarrow> bool" where
  "table_inv n0 LL CL st =
     (n0 \<le> length (terminal (snd st)) \<and>
      nrows (fst st) = length LL \<and> ncols (fst st) = length CL \<and>
      (\<forall>i<length LL. \<forall>j<length CL.
         elems (fst st) i j = best (observed (LL ! i) (CL ! j) (drop n0 (terminal (snd st))))))"

text \<open>
  The positive entries of a table, row by row; the place of a label in a list, which is
  what \<^verbatim>\<open>index\<close> returns for a member; and what the search for the benchmark knows
  after the cells \<open>pre\<close>: whether one of them was positive and, if so, the lowest positive
  value among them and the labels of a cell that holds it.
\<close>

definition positives :: "real ndarray \<Rightarrow> real list" where
  "positives R =
     filter (\<lambda>x. 0 < x)
       (map (\<lambda>(i, j). elems R i j) (List.product [0..<nrows R] [0..<ncols R]))"

definition position :: "'a list \<Rightarrow> 'a \<Rightarrow> nat" where
  "position xs x = length (takeWhile (\<lambda>y. y \<noteq> x) xs)"

definition bench_inv ::
  "real ndarray \<Rightarrow> string list \<Rightarrow> string list \<Rightarrow> (nat \<times> nat) list \<Rightarrow> bench \<Rightarrow> bool" where
  "bench_inv R L C pre st =
     (case st of (First, FLT, FCO, B) \<Rightarrow>
        (First \<longleftrightarrow> (\<forall>c\<in>set pre. \<not> 0 < elems R (fst c) (snd c))) \<and>
        (First \<longrightarrow> FLT = [] \<and> FCO = [] \<and> B = 1) \<and>
        (\<not> First \<longrightarrow>
           (\<exists>c\<in>set pre. elems R (fst c) (snd c) = B \<and> FLT = L ! fst c \<and> FCO = C ! snd c) \<and>
           (\<forall>c\<in>set pre. 0 < elems R (fst c) (snd c) \<longrightarrow> B \<le> elems R (fst c) (snd c))) \<and>
        0 < B)"

text \<open>A table none of whose entries is negative.\<close>

definition nonneg :: "real ndarray \<Rightarrow> bool" where
  "nonneg R = (\<forall>i<nrows R. \<forall>j<ncols R. 0 \<le> elems R i j)"

section \<open>Concrete inputs\<close>

text \<open>
  A store with a 2 by 3 input array at address 0, filled as the test programs fill it
  (\<^verbatim>\<open>ina[iy,ix] = nx - ix + ny - iy\<close>), and arrays of zeros elsewhere.
\<close>

definition grid :: "int store" where
  "grid = (\<lambda>p. if p = 0 then \<lparr>nrows = 2, ncols = 3, elems = \<lambda>iy ix. 3 - int ix + 2 - int iy\<rparr>
                else \<lparr>nrows = 2, ncols = 3, elems = \<lambda>iy ix. 0\<rparr>)"


text \<open>
  The world at the start, and four machines: one where every command succeeds silently
  and the Tcl test takes three seconds at 200 repeats, five at 2 and one at 1; one where
  the user interrupts every command; one where commands exit with status zero after
  writing the byte \<open>0xFF\<close>, which is not UTF-8.
\<close>

definition w0 :: world where
  "w0 = \<lparr>history = [], clock = 0, terminal = []\<rparr>"

definition os_quiet :: os where
  "os_quiet h c =
     (Finished [] [] 0,
      if c = [''tclsh'', ''ctest.tcl'', ''200'', ''2000'', ''10''] then 3
      else if c = [''tclsh'', ''ctest.tcl'', ''2'', ''2000'', ''10''] then 5
      else 1)"

definition os_interrupted :: os where
  "os_interrupted h c = (Interrupted, 1)"

definition os_garbled :: os where
  "os_garbled h c = (Finished [CHR 0xFF] [] 0, 1)"




text \<open>
  A machine where the Tcl test at 200 repeats runs for five seconds and exits with status
  1, and everything else succeeds in one second.
\<close>

definition os_flaky :: os where
  "os_flaky h c =
     (if c = [''tclsh'', ''ctest.tcl'', ''200'', ''2000'', ''10'']
      then (Finished [] [] 1, 5) else (Finished [] [] 0, 1))"

section \<open>Properties of the kernels\<close>

subsection \<open>The element-by-element loop\<close>

lemma row_loop:
  assumes "distinct ixs" "\<forall>ix\<in>set ixs. ix < ncols (s ina) \<and> ix < ncols (s out)"
    "iy < nrows (s ina)" "iy < nrows (s out)"
  shows "for_loop ixs (subr_assign add cv ina out iy) s =
     Done (s(out := (s out)\<lparr>elems := \<lambda>i j. if i = iy \<and> j \<in> set ixs
        then add (add (elems (s ina) i j) (cv j)) (cv i) else elems (s out) i j\<rparr>))"
  using assms
proof (induction ixs arbitrary: s)
  case Nil
  then show ?case by simp
next
  case (Cons ix ixs)
  let ?a = "(s out)\<lparr>elems := (elems (s out))(iy := (elems (s out) iy)(ix := add (add (elems (s ina) iy ix) (cv ix)) (cv iy)))\<rparr>"
  let ?s1 = "s(out := ?a)"
  have step: "subr_assign add cv ina out iy ix s = Done ?s1"
    using Cons.prems by (simp add: subr_assign_def getitem_def setitem_def)
  have pre: "distinct ixs" "\<forall>ix\<in>set ixs. ix < ncols (?s1 ina) \<and> ix < ncols (?s1 out)"
    "iy < nrows (?s1 ina)" "iy < nrows (?s1 out)"
    using Cons.prems by auto
  have "for_loop (ix # ixs) (subr_assign add cv ina out iy) s
      = for_loop ixs (subr_assign add cv ina out iy) ?s1"
    by (simp add: step)
  also have "\<dots> = Done (?s1(out := (?s1 out)\<lparr>elems := \<lambda>i j. if i = iy \<and> j \<in> set ixs
        then add (add (elems (?s1 ina) i j) (cv j)) (cv i) else elems (?s1 out) i j\<rparr>))"
    by (rule Cons.IH[OF pre])
  also have "\<dots> = Done (s(out := (s out)\<lparr>elems := \<lambda>i j. if i = iy \<and> j \<in> set (ix # ixs)
        then add (add (elems (s ina) i j) (cv j)) (cv i) else elems (s out) i j\<rparr>))"
    using Cons.prems(1) by (auto simp: fun_eq_iff)
  finally show ?case .
qed

lemma grid_loop:
  assumes "distinct iys" "\<forall>iy\<in>set iys. iy < nrows (s ina) \<and> iy < nrows (s out)"
    "n \<le> ncols (s ina)" "n \<le> ncols (s out)"
  shows "for_loop iys (\<lambda>iy. for_loop [0..<n] (subr_assign add cv ina out iy)) s =
     Done (s(out := (s out)\<lparr>elems := \<lambda>i j. if i \<in> set iys \<and> j < n
        then add (add (elems (s ina) i j) (cv j)) (cv i) else elems (s out) i j\<rparr>))"
  using assms
proof (induction iys arbitrary: s)
  case Nil
  then show ?case by simp
next
  case (Cons iy iys)
  let ?a = "(s out)\<lparr>elems := \<lambda>i j. if i = iy \<and> j \<in> set [0..<n]
        then add (add (elems (s ina) i j) (cv j)) (cv i) else elems (s out) i j\<rparr>"
  let ?s1 = "s(out := ?a)"
  have step: "for_loop [0..<n] (subr_assign add cv ina out iy) s = Done ?s1"
    using Cons.prems by (intro row_loop) auto
  have pre: "distinct iys" "\<forall>iy\<in>set iys. iy < nrows (?s1 ina) \<and> iy < nrows (?s1 out)"
    "n \<le> ncols (?s1 ina)" "n \<le> ncols (?s1 out)"
    using Cons.prems by auto
  have "for_loop (iy # iys) (\<lambda>iy. for_loop [0..<n] (subr_assign add cv ina out iy)) s
      = for_loop iys (\<lambda>iy. for_loop [0..<n] (subr_assign add cv ina out iy)) ?s1"
    by (simp add: step)
  also have "\<dots> = Done (?s1(out := (?s1 out)\<lparr>elems := \<lambda>i j. if i \<in> set iys \<and> j < n
        then add (add (elems (?s1 ina) i j) (cv j)) (cv i) else elems (?s1 out) i j\<rparr>))"
    by (rule Cons.IH[OF pre])
  also have "\<dots> = Done (s(out := (s out)\<lparr>elems := \<lambda>i j. if i \<in> set (iy # iys) \<and> j < n
        then add (add (elems (s ina) i j) (cv j)) (cv i) else elems (s out) i j\<rparr>))"
    using Cons.prems(1) by (auto simp: fun_eq_iff)
  finally show ?case .
qed

lemma subr_closed:
  assumes "int (nrows (s ina)) = ny" "int (ncols (s ina)) = nx"
    "int (nrows (s out)) = ny" "int (ncols (s out)) = nx"
  shows "subr add cv ina nx ny out s = Done (kernel_image add cv ina (nat nx) (nat ny) out s)"
proof -
  have "subr add cv ina nx ny out s =
      for_loop [0..<nat ny] (\<lambda>iy. for_loop [0..<nat nx] (subr_assign add cv ina out iy)) s"
    by (simp add: subr_def py_range_def)
  also have "\<dots> = Done (s(out := (s out)\<lparr>elems := \<lambda>i j. if i \<in> set [0..<nat ny] \<and> j < nat nx
        then add (add (elems (s ina) i j) (cv j)) (cv i) else elems (s out) i j\<rparr>))"
    using assms by (intro grid_loop) auto
  finally show ?thesis by (simp add: kernel_image_def)
qed

text \<open>
  Claim C1. For arrays \<open>ina\<close> and \<open>out\<close> of \<open>ny\<close> rows and \<open>nx\<close> columns (the same
  object or two), \<open>subr\<close> returns, and then every cell \<open>out[iy,ix]\<close> holds
  \<open>ina[iy,ix] + ix + iy\<close>, for the elements \<open>ina\<close> had at the call, added in this
  order; the shape of \<open>out\<close> is as before. The kernel is the nested loop over
  \<^verbatim>\<open>range(ny)\<close> and \<^verbatim>\<open>range(nx)\<close> around the one assignment.
\<close>

theorem subr_adds_indices:
  assumes "int (nrows (s ina)) = ny" "int (ncols (s ina)) = nx"
    "int (nrows (s out)) = ny" "int (ncols (s out)) = nx"
  shows "(\<exists>s'. subr add cv ina nx ny out s = Done s' \<and>
           (\<forall>iy<nat ny. \<forall>ix<nat nx.
              elems (s' out) iy ix = add (add (elems (s ina) iy ix) (cv ix)) (cv iy)) \<and>
           nrows (s' out) = nrows (s out) \<and> ncols (s' out) = ncols (s out)) \<and>
         subr add cv ina nx ny out =
           for_loop (py_range ny) (\<lambda>iy. for_loop (py_range nx) (\<lambda>ix.
             subr_assign add cv ina out iy ix))"
  using subr_closed[OF assms, of add cv] by (simp add: kernel_image_def subr_def)

theorem subr_adds_indices_witness:
  "\<exists>s'. subr (+) int 0 3 2 1 grid = Done s' \<and> elems (s' 1) 1 2 = 5 \<and> elems (s' 1) 0 0 = 5"
proof -
  have h: "int (nrows (grid 0)) = 2" "int (ncols (grid 0)) = 3"
    "int (nrows (grid 1)) = 2" "int (ncols (grid 1)) = 3"
    by (simp_all add: grid_def)
  from subr_adds_indices[OF h, of "(+)" int]
  obtain s' where s': "subr (+) int 0 3 2 1 grid = Done s'"
    "\<forall>iy<nat 2. \<forall>ix<nat 3. elems (s' 1) iy ix = elems (grid 0) iy ix + int ix + int iy"
    by blast
  from s'(2) have "elems (s' 1) 1 2 = elems (grid 0) 1 2 + int 2 + int 1"
    "elems (s' 1) 0 0 = elems (grid 0) 0 0 + int 0 + int 0" by simp_all
  then show ?thesis using s'(1) by (simp add: grid_def)
qed

subsection \<open>The vector and broadcast kernels in closed form\<close>








subsection \<open>The four kernels compared\<close>





subsection \<open>What a call leaves untouched\<close>

lemma for_loop_inv:
  assumes "\<And>i s. P s \<Longrightarrow> P (state_of (body i s))" "P s"
  shows "P (state_of (for_loop xs body s))"
  using assms(2)
proof (induction xs arbitrary: s)
  case Nil
  then show ?case by simp
next
  case (Cons x xs)
  show ?case
  proof (cases "body x s")
    case (Done s')
    with assms(1)[OF Cons.prems, of x] have "P s'" by simp
    then show ?thesis using Done Cons.IH by simp
  next
    case (Raised e s')
    with assms(1)[OF Cons.prems, of x] show ?thesis by simp
  qed
qed











section \<open>Properties of the timing driver\<close>

subsection \<open>ExecuteCommand\<close>

lemma ExecuteCommand_cases:
  "ExecuteCommand os Command w =
     (case fst (os (history w) (split_ws Command)) of
        Interrupted \<Rightarrow> Raise (SystemExit 0) (ran os Command w)
      | SpawnFailed \<Rightarrow> Return (Some (error_status Command), Str [], Str []) (ran os Command w)
      | Finished out err r \<Rightarrow>
          if decodes out \<and> decodes err
          then Return (if r = 0 then None else Some (error_status Command), Str out, Str err)
                 (ran os Command w)
          else Return (Some (error_status Command),
                       if decodes out then Str out else Bytes out, Bytes err)
                 (ran os Command w))"
  by (simp add: ExecuteCommand_def ran_def Let_def split: proc.splits)


lemma ExecuteCommand_raise:
  "ExecuteCommand os Command w = Raise e w' \<Longrightarrow> e = SystemExit 0"
  by (auto simp: ExecuteCommand_cases split: proc.splits if_splits)

lemma ExecuteCommand_terminal:
  "ExecuteCommand os Command w = Return r w' \<or> ExecuteCommand os Command w = Raise e w'
     \<Longrightarrow> terminal w' = terminal w"
  by (auto simp: ExecuteCommand_cases ran_def split: proc.splits if_splits)

text \<open>
  Claim C4, as amended. \<open>ExecuteCommand\<close> attempts the command once. Unless the user
  interrupts it, in which case the whole program exits with status 0, it returns
  \<open>(Status, Output, Errors)\<close>. When the process ran and what it wrote is well-formed
  UTF-8, \<open>Status\<close> is \<open>None\<close> exactly if the exit status is zero and otherwise the string
  \<^verbatim>\<open>Error executing '<command>'\<close>, and \<open>Output\<close> and \<open>Errors\<close> are the decoded standard
  output and standard error. When the process could not be started, \<open>Status\<close> is that
  string and \<open>Output\<close> and \<open>Errors\<close> are empty.
\<close>

theorem ExecuteCommand_status:
  assumes "fst (os (history w) (split_ws Command)) = p"
  shows "(p = Interrupted \<longrightarrow>
            ExecuteCommand os Command w = Raise (SystemExit 0) (ran os Command w)) \<and>
         (p = SpawnFailed \<longrightarrow>
            ExecuteCommand os Command w =
              Return (Some (error_status Command), Str [], Str []) (ran os Command w)) \<and>
         (\<forall>out err r. p = Finished out err r \<and> decodes out \<and> decodes err \<longrightarrow>
            ExecuteCommand os Command w =
              Return (if r = 0 then None else Some (error_status Command), Str out, Str err)
                (ran os Command w)) \<and>
         error_status Command = ''Error executing '' @ [CHR 0x27] @ Command @ [CHR 0x27] \<and>
         history (ran os Command w) = history w @ [split_ws Command] \<and>
         terminal (ran os Command w) = terminal w"
  using assms by (auto simp: ExecuteCommand_cases error_status_def ran_def)

theorem ExecuteCommand_status_witness:
  "ExecuteCommand os_quiet ''c++ --version'' w0 =
     Return (None, Str [], Str [])
       \<lparr>history = [[''c++'', ''--version'']], clock = 1, terminal = []\<rparr>"
  using ExecuteCommand_status[of os_quiet w0 "''c++ --version''" "Finished [] [] 0"]
  by (simp add: os_quiet_def w0_def ran_def split_ws_def is_space_def decodes_def)

text \<open>
  The claim as stated fails on an interrupt, where no tuple is returned, and on a
  process that exits with status zero after writing bytes that are not UTF-8, where
  \<open>Status\<close> is the error string and the streams come back undecoded.
\<close>

theorem ExecuteCommand_counterexample:
  "ExecuteCommand os_interrupted ''c++ --version'' w0 =
     Raise (SystemExit 0) \<lparr>history = [[''c++'', ''--version'']], clock = 1, terminal = []\<rparr> \<and>
   fst (os_garbled [] [''c++'', ''--version'']) = Finished [CHR 0xFF] [] 0 \<and>
   ExecuteCommand os_garbled ''c++ --version'' w0 =
     Return (Some (''Error executing '' @ [CHR 0x27] @ ''c++ --version'' @ [CHR 0x27]),
             Bytes [CHR 0xFF], Bytes [])
       \<lparr>history = [[''c++'', ''--version'']], clock = 1, terminal = []\<rparr>"
  by (simp add: ExecuteCommand_def os_interrupted_def os_garbled_def w0_def split_ws_def
      is_space_def decodes_def error_status_def)


subsection \<open>BuildAndTimeProgram\<close>


lemma terminal_ran: "terminal (ran os c w) = terminal w"
  by (simp add: ran_def)



lemma terminal_runs: "terminal (runs os cs w) = terminal w"
  unfolding runs_def by (induction cs arbitrary: w) (simp_all add: terminal_ran)

lemma runs_append: "runs os (cs @ ds) w = runs os ds (runs os cs w)"
  by (simp add: runs_def)








text \<open>
  The only exception that leaves the routine is the exit on an interrupt; the timing
  stage alone, at a repeat count of one, would divide by zero.
\<close>

lemma build_raise: "build os B1 B2 w = Raise e w' \<Longrightarrow> e = SystemExit 0"
  by (auto simp: build_def split: if_splits result.splits dest: ExecuteCommand_raise)

lemma cleanup_raise: "cleanup os C Status Secs Errors w = Raise e w' \<Longrightarrow> e = SystemExit 0"
  by (auto simp: cleanup_def split: if_splits result.splits dest: ExecuteCommand_raise)

lemma time_program_raise:
  "time_program os E N Nx Ny w = Raise e w' \<Longrightarrow> 2 \<le> N \<Longrightarrow> e = SystemExit 0"
  by (auto simp: time_program_def Let_def py_div_def
      split: if_splits result.splits sum.splits dest: ExecuteCommand_raise)

lemma time_program_one:
  "time_program os_quiet ''tclsh ctest.tcl'' 1 2000 10 w0 =
     Raise ZeroDivisionError
       \<lparr>history = [[''tclsh'', ''ctest.tcl'', ''1'', ''2000'', ''10''],
                   [''tclsh'', ''ctest.tcl'', ''1'', ''2000'', ''10'']],
        clock = 2, terminal = []\<rparr>"
  by (simp add: time_program_def run_command_def str_int_def digits.simps
        ExecuteCommand_def os_quiet_def w0_def split_ws_def is_space_def decodes_def
        py_div_def Let_def)

text \<open>
  Claim C8. For every integer \<open>Nrpt\<close>, zero, one and the negative ones included, the
  routine does what it does for \<open>max 2 Nrpt\<close>: the count is raised to at least 2 before
  the timed runs. Neither the routine nor its timing stage at that count raises
  \<open>ZeroDivisionError\<close>: the factor \<open>Nrpt / (Nrpt - 1)\<close> never has a zero divisor.
\<close>

theorem BuildAndTimeProgram_repeat_floor:
  "BuildAndTimeProgram os B1 B2 E Nrpt Nx Ny C w =
     BuildAndTimeProgram os B1 B2 E (max 2 Nrpt) Nx Ny C w \<and>
   (\<forall>w'. BuildAndTimeProgram os B1 B2 E Nrpt Nx Ny C w \<noteq> Raise ZeroDivisionError w') \<and>
   (\<forall>e w'. BuildAndTimeProgram os B1 B2 E Nrpt Nx Ny C w = Raise e w' \<longrightarrow> e = SystemExit 0) \<and>
   (\<forall>w1 w'. time_program os E (max 2 Nrpt) Nx Ny w1 \<noteq> Raise ZeroDivisionError w')"
proof -
  have N: "(if Nrpt < 2 then 2 else Nrpt) = max 2 Nrpt"
    "(if max 2 Nrpt < 2 then 2 else max 2 Nrpt) = max 2 Nrpt" by simp_all
  have 1: "BuildAndTimeProgram os B1 B2 E Nrpt Nx Ny C w =
     BuildAndTimeProgram os B1 B2 E (max 2 Nrpt) Nx Ny C w"
    unfolding BuildAndTimeProgram_def N ..
  have 3: "e = SystemExit 0" if "BuildAndTimeProgram os B1 B2 E Nrpt Nx Ny C w = Raise e w'" for e w'
  proof (cases "build os B1 B2 w")
    case (Raise e1 w1)
    with that have "e = e1" by (simp add: BuildAndTimeProgram_def)
    with build_raise[OF Raise] show ?thesis by simp
  next
    case (Return r w1)
    obtain Status Errors where r: "r = (Status, Errors)" by (cases r)
    show ?thesis
    proof (cases "if Status = None then time_program os E (max 2 Nrpt) Nx Ny w1
                 else Return (Status, 0, Errors) w1")
      case (Raise e2 w2)
      with that Return r have e: "e = e2" by (simp add: BuildAndTimeProgram_def N)
      from Raise have "time_program os E (max 2 Nrpt) Nx Ny w1 = Raise e2 w2"
        by (simp split: if_splits)
      from time_program_raise[OF this] e show ?thesis by simp
    next
      case Return2: (Return r2 w2)
      obtain Status' Secs Errors' where r2: "r2 = (Status', Secs, Errors')" by (cases r2)
      from that Return r Return2 r2
      have "cleanup os C Status' Secs Errors' w2 = Raise e w'"
        by (simp add: BuildAndTimeProgram_def N)
      from cleanup_raise[OF this] show ?thesis .
    qed
  qed
  have 4: "time_program os E (max 2 Nrpt) Nx Ny w1 \<noteq> Raise ZeroDivisionError w'" for w1 w'
    using time_program_raise[of os E "max 2 Nrpt" Nx Ny w1 ZeroDivisionError w'] by auto
  from 3 have 2: "BuildAndTimeProgram os B1 B2 E Nrpt Nx Ny C w \<noteq> Raise ZeroDivisionError w'" for w'
    by fastforce
  from 1 2 3 4 show ?thesis by blast
qed




theorem BuildAndTimeProgram_repeat_floor_witness:
  "BuildAndTimeProgram os_quiet [] [] ''tclsh ctest.tcl'' 0 2000 10 [] w0 =
     BuildAndTimeProgram os_quiet [] [] ''tclsh ctest.tcl'' 2 2000 10 [] w0 \<and>
   BuildAndTimeProgram os_quiet [] [] ''tclsh ctest.tcl'' 0 2000 10 [] w0 =
     Return (None, (5 - 1) * 2 / 1, Str [])
       \<lparr>history = [[''tclsh'', ''ctest.tcl'', ''2'', ''2000'', ''10''],
                   [''tclsh'', ''ctest.tcl'', ''1'', ''2000'', ''10'']],
        clock = 6, terminal = []\<rparr> \<and>
   BuildAndTimeProgram os_interrupted [] [] ''tclsh ctest.tcl'' 1 2000 10 [] w0 =
     Raise (SystemExit 0)
       \<lparr>history = [[''tclsh'', ''ctest.tcl'', ''2'', ''2000'', ''10'']],
        clock = 1, terminal = []\<rparr>"
proof -
  have r: "run_command ''tclsh ctest.tcl'' 2 2000 10 = ''tclsh ctest.tcl 2 2000 10''"
    "run_command ''tclsh ctest.tcl'' 1 2000 10 = ''tclsh ctest.tcl 1 2000 10''"
    by (simp_all add: run_command_def str_int_def digits.simps)
  have a: "BuildAndTimeProgram os_quiet [] [] ''tclsh ctest.tcl'' 2 2000 10 [] w0 =
     Return (None, (5 - 1) * 2 / 1, Str [])
       \<lparr>history = [[''tclsh'', ''ctest.tcl'', ''2'', ''2000'', ''10''],
                   [''tclsh'', ''ctest.tcl'', ''1'', ''2000'', ''10'']],
        clock = 6, terminal = []\<rparr>"
    by (simp add: BuildAndTimeProgram_def build_def time_program_def cleanup_def r
        ExecuteCommand_def os_quiet_def w0_def split_ws_def is_space_def decodes_def
        py_div_def Let_def)
  have b: "BuildAndTimeProgram os_interrupted [] [] ''tclsh ctest.tcl'' 2 2000 10 [] w0 =
     Raise (SystemExit 0)
       \<lparr>history = [[''tclsh'', ''ctest.tcl'', ''2'', ''2000'', ''10'']],
        clock = 1, terminal = []\<rparr>"
    by (simp add: BuildAndTimeProgram_def build_def time_program_def cleanup_def r
        ExecuteCommand_def os_interrupted_def w0_def split_ws_def is_space_def Let_def)
  have m: "max 2 (0::int) = 2" "max 2 (1::int) = 2" by simp_all
  note e0 = conjunct1[OF BuildAndTimeProgram_repeat_floor[of os_quiet "[]" "[]"
        "''tclsh ctest.tcl''" 0 2000 10 "[]" w0], unfolded m]
  note e1 = conjunct1[OF BuildAndTimeProgram_repeat_floor[of os_interrupted "[]" "[]"
        "''tclsh ctest.tcl''" 1 2000 10 "[]" w0], unfolded m]
  show ?thesis
    unfolding e0 e1 by (intro conjI refl a b)
qed

text \<open>
  The status that the routine returns for the timed stage is the second run's. A
  full-repeat run that fails is not seen when the single-repeat run succeeds, and its
  elapsed time is used like any other.
\<close>

lemma full_run_failure_masked:
  "ExecuteCommand os_flaky ''tclsh ctest.tcl 200 2000 10'' w0 =
     Return (Some (error_status ''tclsh ctest.tcl 200 2000 10''), Str [], Str [])
       \<lparr>history = [[''tclsh'', ''ctest.tcl'', ''200'', ''2000'', ''10'']],
        clock = 5, terminal = []\<rparr> \<and>
   BuildAndTimeProgram os_flaky [] [] ''tclsh ctest.tcl'' 200 2000 10 [] w0 =
     Return (None, 800 / 199, Str [])
       \<lparr>history = [[''tclsh'', ''ctest.tcl'', ''200'', ''2000'', ''10''],
                   [''tclsh'', ''ctest.tcl'', ''1'', ''2000'', ''10'']],
        clock = 6, terminal = []\<rparr>"
proof -
  have r: "run_command ''tclsh ctest.tcl'' 200 2000 10 = ''tclsh ctest.tcl 200 2000 10''"
    "run_command ''tclsh ctest.tcl'' 1 2000 10 = ''tclsh ctest.tcl 1 2000 10''"
    by (simp_all add: run_command_def str_int_def digits.simps)
  have s: "split_ws ''tclsh ctest.tcl 200 2000 10'' = [''tclsh'', ''ctest.tcl'', ''200'', ''2000'', ''10'']"
    "split_ws ''tclsh ctest.tcl 1 2000 10'' = [''tclsh'', ''ctest.tcl'', ''1'', ''2000'', ''10'']"
    by (simp_all add: split_ws_def is_space_def)
  show ?thesis
    by (simp add: BuildAndTimeProgram_def build_def time_program_def cleanup_def r s
        ExecuteCommand_def os_flaky_def w0_def decodes_def py_div_def Let_def)
qed

subsection \<open>ListVersion\<close>






subsection \<open>Loops, labels and the terminal\<close>

lemma for_loop_append:
  "for_loop (xs @ ys) body s =
     (case for_loop xs body s of Done s' \<Rightarrow> for_loop ys body s' | Raised e s' \<Rightarrow> Raised e s')"
  by (induction xs arbitrary: s) (auto split: outcome.splits)

lemma for_loop_map: "for_loop (map g xs) body s = for_loop xs (\<lambda>x. body (g x)) s"
  by (induction xs arbitrary: s) (auto split: outcome.splits)

lemma for_loop_product:
  "for_loop xs (\<lambda>i. for_loop ys (f i)) s = for_loop (List.product xs ys) (\<lambda>(i, j). f i j) s"
  by (induction xs arbitrary: s) (auto simp: for_loop_append for_loop_map split: outcome.splits)

lemma for_loop_steps:
  assumes "I [] s0"
    and "\<And>pre x s. I pre s \<Longrightarrow> x \<in> set xs \<Longrightarrow> \<exists>s'. body x s = Done s' \<and> I (pre @ [x]) s'"
  shows "\<exists>s'. for_loop xs body s0 = Done s' \<and> I xs s'"
  using assms(2)
proof (induction xs rule: rev_induct)
  case Nil
  then show ?case using assms(1) by simp
next
  case (snoc x xs)
  have "\<exists>s'. for_loop xs body s0 = Done s' \<and> I xs s'"
    by (rule snoc.IH) (use snoc.prems in auto)
  then obtain s1 where s1: "for_loop xs body s0 = Done s1" "I xs s1" by blast
  from snoc.prems[OF s1(2), of x] obtain s2 where "body x s1 = Done s2" "I (xs @ [x]) s2"
    by auto
  then show ?case using s1 by (simp add: for_loop_append)
qed

lemma for_loop_inv_mem:
  assumes "\<And>i s. i \<in> set xs \<Longrightarrow> P s \<Longrightarrow> P (state_of (body i s))" "P s"
  shows "P (state_of (for_loop xs body s))"
  using assms
proof (induction xs arbitrary: s)
  case Nil
  then show ?case by simp
next
  case (Cons x xs)
  have px: "P (state_of (body x s))" using Cons.prems by simp
  show ?case
  proof (cases "body x s")
    case (Done s')
    with px have "P s'" by simp
    then have "P (state_of (for_loop xs body s'))"
      by (intro Cons.IH) (use Cons.prems(1) in auto)
    then show ?thesis using Done by simp
  next
    case (Raised e s')
    with px show ?thesis by simp
  qed
qed

lemma foldl_add_new:
  "distinct acc \<Longrightarrow>
     distinct (foldl (\<lambda>L T. add_new (f T) L) acc xs) \<and>
     set (foldl (\<lambda>L T. add_new (f T) L) acc xs) = set acc \<union> f ` set xs"
  by (induction xs arbitrary: acc) (auto simp: add_new_def)

lemma LangTechList_props:
  "distinct (LangTechList FT)" "set (LangTechList FT) = lang_tech ` set FT"
  using foldl_add_new[of "[]" lang_tech FT] by (simp_all add: LangTechList_def)

lemma CompOptList_props:
  "distinct (CompOptList FT)" "set (CompOptList FT) = comp_opt ` set FT"
  using foldl_add_new[of "[]" comp_opt FT] by (simp_all add: CompOptList_def)

lemma index_of_mem:
  "x \<in> set xs \<Longrightarrow> \<exists>i. index_of xs x = Inr i \<and> i < length xs \<and> xs ! i = x"
  by (induction xs) (auto split: sum.splits)

lemma index_of_nth:
  "distinct xs \<Longrightarrow> i < length xs \<Longrightarrow> index_of xs (xs ! i) = Inr i"
proof (induction xs arbitrary: i)
  case Nil
  then show ?case by simp
next
  case (Cons y ys)
  then show ?case by (cases i) (auto simp: nth_Cons')
qed

lemma ExecuteCommand_terminal_of:
  "terminal (world_of (ExecuteCommand os Command w)) = terminal w"
  by (simp add: ExecuteCommand_cases terminal_ran split: proc.splits)

lemma build_terminal: "terminal (world_of (build os B1 B2 w)) = terminal w"
proof -
  have e: "terminal w' = terminal w" if "ExecuteCommand os c w = Return r w' \<or> ExecuteCommand os c w = Raise e w'"
    for c w r e w' using ExecuteCommand_terminal[OF that] .
  show ?thesis
    by (auto simp: build_def split: result.splits if_splits dest!: ExecuteCommand_terminal[OF disjI1] ExecuteCommand_terminal[OF disjI2])
qed


lemma time_program_terminal: "terminal (world_of (time_program os E N Nx Ny w)) = terminal w"
  by (auto simp: time_program_def Let_def split: result.splits sum.splits
      dest!: ExecuteCommand_terminal[OF disjI1] ExecuteCommand_terminal[OF disjI2])

lemma cleanup_terminal: "terminal (world_of (cleanup os C Status Secs Errors w)) = terminal w"
  by (auto simp: cleanup_def split: result.splits if_splits
      dest!: ExecuteCommand_terminal[OF disjI1] ExecuteCommand_terminal[OF disjI2])

lemma BuildAndTimeProgram_terminal:
  "terminal (world_of (BuildAndTimeProgram os B1 B2 E Nrpt Nx Ny C w)) = terminal w"
proof (cases "build os B1 B2 w")
  case (Raise e w1)
  with build_terminal[of os B1 B2 w] show ?thesis by (simp add: BuildAndTimeProgram_def)
next
  case (Return r w1)
  obtain Status Errors where r: "r = (Status, Errors)" by (cases r)
  from Return build_terminal[of os B1 B2 w] have t1: "terminal w1 = terminal w" by simp
  let ?N = "if Nrpt < 2 then 2 else Nrpt"
  show ?thesis
  proof (cases "if Status = None then time_program os E ?N Nx Ny w1
                 else Return (Status, 0, Errors) w1")
    case (Raise e2 w2)
    then have "time_program os E ?N Nx Ny w1 = Raise e2 w2" by (simp split: if_splits)
    with time_program_terminal[of os E ?N Nx Ny w1] have "terminal w2 = terminal w1" by simp
    with Raise Return r t1 show ?thesis by (simp add: BuildAndTimeProgram_def)
  next
    case Return2: (Return r2 w2)
    obtain Status' Secs Errors' where r2: "r2 = (Status', Secs, Errors')" by (cases r2)
    have "terminal w2 = terminal w1"
      using Return2 time_program_terminal[of os E ?N Nx Ny w1] by (auto split: if_splits)
    with Return r Return2 r2 t1 cleanup_terminal[of os C Status' Secs Errors' w2]
    show ?thesis by (simp add: BuildAndTimeProgram_def)
  qed
qed

lemma record_result_cell:
  assumes "i0 < nrows R" "j0 < ncols R"
  shows "\<exists>R'. record_result R i0 j0 K = Inr R' \<and> nrows R' = nrows R \<and> ncols R' = ncols R \<and>
     (\<forall>i j. elems R' i j =
        (if i = i0 \<and> j = j0 \<and> 0 < K \<and> (elems R i0 j0 \<le> 0 \<or> K < elems R i0 j0) then K
         else elems R i j))"
  using assms by (auto simp: record_result_def getitem_def setitem_def)

lemma observed_append: "observed L C (xs @ ys) = observed L C xs @ observed L C ys"
  by (simp add: observed_def)

lemma observed_pos: "k \<in> set (observed L C ls) \<Longrightarrow> 0 < k"
  by (auto simp: observed_def split: line.splits if_splits)

lemma best_snoc:
  assumes "\<forall>k\<in>set ks. 0 < k" "0 < K"
  shows "best (ks @ [K]) = (if best ks \<le> 0 \<or> K < best ks then K else best ks)"
proof (cases "ks = []")
  case True
  then show ?thesis by (simp add: best_def)
next
  case False
  then have "Min (set ks) \<in> set ks" by simp
  with assms(1) have "0 < Min (set ks)" by blast
  moreover have "best (ks @ [K]) = min K (Min (set ks))"
    using False by (simp add: best_def)
  moreover have "best ks = Min (set ks)"
    using False by (simp add: best_def)
  ultimately show ?thesis by (simp add: min_def)
qed

subsection \<open>One test and the table\<close>

lemma table_inv_terminal:
  "terminal w1 = terminal w \<Longrightarrow> table_inv n0 LL CL (R, w1) = table_inv n0 LL CL (R, w)"
  by (simp add: table_inv_def)

lemma observed_other:
  "observed L C [Text xs] = []" "observed L C [ErrorLine a b c d] = []"
  "observed L C [SummaryLine a b x y] = []" "observed L C [CsvRow a fs] = []"
  by (simp_all add: observed_def)

lemma table_inv_print:
  assumes "table_inv n0 LL CL (R, w)" "\<And>L C. observed L C [l] = []"
  shows "table_inv n0 LL CL (R, print l w)"
  using assms by (simp add: table_inv_def print_def observed_append)

lemma table_inv_timing:
  assumes d: "distinct LL" "distinct CL" and r: "i0 < length LL" "j0 < length CL"
    and inv: "table_inv n0 LL CL (R, w)"
    and sh: "nrows R' = nrows R" "ncols R' = ncols R"
    and el: "\<forall>i j. elems R' i j =
        (if i = i0 \<and> j = j0 \<and> 0 < K \<and> (elems R i0 j0 \<le> 0 \<or> K < elems R i0 j0) then K
         else elems R i j)"
  shows "table_inv n0 LL CL (R', print (TimingLine (LL ! i0) (CL ! j0) n secs K) w)"
proof -
  let ?t = "terminal w"
  from inv have n0: "n0 \<le> length ?t" and shape: "nrows R = length LL" "ncols R = length CL"
    and cells: "\<forall>i<length LL. \<forall>j<length CL.
         elems R i j = best (observed (LL ! i) (CL ! j) (drop n0 ?t))"
    by (simp_all add: table_inv_def)
  have "elems R' i j = best (observed (LL ! i) (CL ! j)
          (drop n0 (?t @ [TimingLine (LL ! i0) (CL ! j0) n secs K])))"
    if ij: "i < length LL" "j < length CL" for i j
  proof -
    let ?old = "observed (LL ! i) (CL ! j) (drop n0 ?t)"
    have same: "(LL ! i = LL ! i0 \<and> CL ! j = CL ! j0) = (i = i0 \<and> j = j0)"
      using d r ij by (simp add: nth_eq_iff_index_eq)
    have new: "observed (LL ! i) (CL ! j) (drop n0 (?t @ [TimingLine (LL ! i0) (CL ! j0) n secs K]))
        = ?old @ (if i = i0 \<and> j = j0 \<and> 0 < K then [K] else [])"
      using n0 same by (simp add: observed_append) (auto simp: observed_def)
    have old: "elems R i j = best ?old" using cells ij by simp
    show ?thesis
    proof (cases "i = i0 \<and> j = j0 \<and> 0 < K")
      case True
      have pos: "\<forall>k\<in>set ?old. 0 < k" using observed_pos by blast
      from True have "elems R' i j = (if best ?old \<le> 0 \<or> K < best ?old then K else best ?old)"
        using el old by simp
      also have "\<dots> = best (?old @ [K])" using best_snoc[OF pos] True by simp
      finally show ?thesis using new True by simp
    next
      case False
      then have "elems R' i j = elems R i j" using el by auto
      then show ?thesis using new old False by auto
    qed
  qed
  then show ?thesis
    using n0 shape sh by (simp add: table_inv_def print_def)
qed



lemma run_test_Raise:
  assumes "BuildAndTimeProgram os (build_cmd1 T) (build_cmd2 T) (exec_cmd T) (nrpt T) Nx Ny
              (cleanup_cmd T) w = Raise e w1"
  shows "run_test os Nx Ny LL CL T (R, w) = Raised e (R, w1)"
  unfolding run_test_def Let_def prod.case assms result.case ..

lemma run_test_error:
  assumes "BuildAndTimeProgram os (build_cmd1 T) (build_cmd2 T) (exec_cmd T) (nrpt T) Nx Ny
              (cleanup_cmd T) w = Return (Status, Secs, Errors) w1"
    and "truthy Status"
  shows "run_test os Nx Ny LL CL T (R, w) =
     Done (R, print (ErrorLine (lang_tech T) (comp_opt T) (str_status Status) Errors) w1)"
  unfolding run_test_def Let_def prod.case assms(1) result.case
  using assms(2) by (simp only: if_True)

lemma run_test_zero:
  assumes "BuildAndTimeProgram os (build_cmd1 T) (build_cmd2 T) (exec_cmd T) (nrpt T) Nx Ny
              (cleanup_cmd T) w = Return (Status, Secs, Errors) w1"
    and "\<not> truthy Status" "nrpt T = 0"
  shows "run_test os Nx Ny LL CL T (R, w) = Raised ZeroDivisionError (R, w1)"
  unfolding run_test_def Let_def prod.case assms(1) result.case
  using assms(2,3) by (simp add: py_div_def)

lemma run_test_timed:
  assumes "BuildAndTimeProgram os (build_cmd1 T) (build_cmd2 T) (exec_cmd T) (nrpt T) Nx Ny
              (cleanup_cmd T) w = Return (Status, Secs, Errors) w1"
    and "\<not> truthy Status" "nrpt T \<noteq> 0"
    and "index_of LL (lang_tech T) = Inr i0" "index_of CL (comp_opt T) = Inr j0"
    and "record_result R i0 j0 (Secs / real_of_int (nrpt T) * 1000) = Inr R'"
  shows "run_test os Nx Ny LL CL T (R, w) =
     Done (R', print (TimingLine (lang_tech T) (comp_opt T) (nrpt T) Secs
                        (Secs / real_of_int (nrpt T) * 1000)) w1)"
  unfolding run_test_def Let_def prod.case assms(1) result.case
  using assms(2-) by (simp add: py_div_def)


lemma run_test_inv:
  assumes d: "distinct LL" "distinct CL"
    and m: "lang_tech T \<in> set LL" "comp_opt T \<in> set CL"
    and inv: "table_inv n0 LL CL st"
  shows "table_inv n0 LL CL (state_of (run_test os Nx Ny LL CL T st))"
proof -
  obtain R w where st: "st = (R, w)" by (cases st)
  let ?b = "BuildAndTimeProgram os (build_cmd1 T) (build_cmd2 T) (exec_cmd T) (nrpt T) Nx Ny
              (cleanup_cmd T) w"
  have t: "terminal (world_of ?b) = terminal w" by (rule BuildAndTimeProgram_terminal)
  from inv have invw: "table_inv n0 LL CL (R, w)" unfolding st .
  show ?thesis
  proof (cases ?b)
    case (Raise e w1)
    from t have "terminal w1 = terminal w" unfolding Raise by simp
    from table_inv_terminal[OF this] invw have "table_inv n0 LL CL (R, w1)" by blast
    then show ?thesis unfolding st run_test_Raise[OF Raise] by simp
  next
    case (Return r w1)
    obtain Status Secs Errors where r: "r = (Status, Secs, Errors)" by (cases r)
    note Ret = Return[unfolded r]
    from t have "terminal w1 = terminal w" unfolding Return by simp
    from table_inv_terminal[OF this] invw have inv1: "table_inv n0 LL CL (R, w1)" by blast
    show ?thesis
    proof (cases "truthy Status")
      case True
      have "table_inv n0 LL CL
         (R, print (ErrorLine (lang_tech T) (comp_opt T) (str_status Status) Errors) w1)"
        by (rule table_inv_print[OF inv1]) (rule observed_other)
      then show ?thesis unfolding st run_test_error[OF Ret True] by simp
    next
      case False
      show ?thesis
      proof (cases "nrpt T = 0")
        case True
        show ?thesis unfolding st run_test_zero[OF Ret False True] using inv1 by simp
      next
        case nz: False
        let ?K = "Secs / real_of_int (nrpt T) * 1000"
        from index_of_mem[OF m(1)] obtain i0 where
          i0: "index_of LL (lang_tech T) = Inr i0" "i0 < length LL" "LL ! i0 = lang_tech T" by blast
        from index_of_mem[OF m(2)] obtain j0 where
          j0: "index_of CL (comp_opt T) = Inr j0" "j0 < length CL" "CL ! j0 = comp_opt T" by blast
        from inv1 have shape: "nrows R = length LL" "ncols R = length CL"
          by (simp_all add: table_inv_def)
        have "i0 < nrows R" "j0 < ncols R" using i0(2) j0(2) shape by simp_all
        from record_result_cell[OF this, of ?K] obtain R' where
          R': "record_result R i0 j0 ?K = Inr R'" "nrows R' = nrows R" "ncols R' = ncols R"
          "\<forall>i j. elems R' i j =
            (if i = i0 \<and> j = j0 \<and> 0 < ?K \<and> (elems R i0 j0 \<le> 0 \<or> ?K < elems R i0 j0) then ?K
             else elems R i j)" by blast
        have "table_inv n0 LL CL (R', print (TimingLine (LL ! i0) (CL ! j0) (nrpt T) Secs ?K) w1)"
          by (rule table_inv_timing[OF d i0(2) j0(2) inv1 R'(2,3,4)])
        then show ?thesis
          unfolding st run_test_timed[OF Ret False nz i0(1) j0(1) R'(1)] i0(3) j0(3) by simp
      qed
    qed
  qed
qed

subsection \<open>The passes over the tests\<close>

lemma announce_lines:
  "announce Ntests Nx Ny ITest w =
     w\<lparr>terminal := terminal w @ map Text
        [[[]],
         if Ntests > 1
         then [''Starting pass'', str_int (int ITest + 1), ''of'', str_int Ntests,
               ''through full set of tests'']
         else [''Running through full set of timing tests''],
         [[]],
         [''Arrays used:'', str_int Nx, ''columns,'', str_int Ny, ''rows''],
         [[]]]\<rparr>"
  by (simp add: announce_def print_def Let_def)

lemma observed_texts: "observed L C (map Text ts) = []"
  by (induction ts) (simp_all add: observed_def)

lemma announce_inv:
  assumes "table_inv n0 LL CL (R, w)"
  shows "table_inv n0 LL CL (R, announce Ntests Nx Ny ITest w)"
  using assms unfolding announce_lines table_inv_def
  by (simp add: observed_append observed_texts del: list.map)

lemma run_pass_inv:
  assumes "table_inv n0 (LangTechList FT) (CompOptList FT) st"
  shows "table_inv n0 (LangTechList FT) (CompOptList FT)
           (state_of (run_pass os FT Ntests Nx Ny ITest st))"
  unfolding run_pass_def
proof (rule for_loop_inv_mem)
  show "table_inv n0 (LangTechList FT) (CompOptList FT)
          (fst st, announce Ntests Nx Ny ITest (snd st))"
    using announce_inv[of n0 _ _ "fst st" "snd st"] assms by simp
next
  fix T s
  assume T: "T \<in> set FT" and s: "table_inv n0 (LangTechList FT) (CompOptList FT) s"
  show "table_inv n0 (LangTechList FT) (CompOptList FT)
          (state_of (run_test os Nx Ny (LangTechList FT) (CompOptList FT) T s))"
    by (rule run_test_inv[OF LangTechList_props(1) CompOptList_props(1) _ _ s])
       (use T in \<open>simp_all add: LangTechList_props(2) CompOptList_props(2)\<close>)
qed

lemma run_passes_inv:
  "table_inv (length (terminal w)) (LangTechList FT) (CompOptList FT)
     (state_of (run_passes os FT Ntests Nx Ny w))"
  unfolding run_passes_def
proof (rule for_loop_inv_mem)
  show "table_inv (length (terminal w)) (LangTechList FT) (CompOptList FT)
     (zeros (length (LangTechList FT)) (length (CompOptList FT)), w)"
    by (simp add: table_inv_def zeros_def observed_def best_def)
qed (rule run_pass_inv)


lemma labels_Tcl: "LangTechList [Tcl] = [''Tcl : raw'']" "CompOptList [Tcl] = [''tclsh'']"
  by (simp_all add: LangTechList_def CompOptList_def add_new_def Tcl_def)







subsection \<open>The search for the benchmark\<close>

lemma index_of_position:
  "x \<in> set xs \<Longrightarrow> index_of xs x = Inr (position xs x) \<and> position xs x < length xs"
  by (induction xs) (auto simp: position_def)

lemma set_positives:
  "set (positives R) = {elems R i j |i j. i < nrows R \<and> j < ncols R \<and> 0 < elems R i j}"
  by (auto simp: positives_def) blast

lemma bench_cell_step:
  assumes r: "i < nrows R" "j < ncols R" "i < length L" "j < length C"
  shows "bench_cell R L C i j (First, FLT, FCO, B) =
     Done (if 0 < elems R i j \<and> (First \<or> elems R i j < B)
           then (False, L ! i, C ! j, elems R i j)
           else (First \<and> \<not> 0 < elems R i j, FLT, FCO, B))"
  using r by (auto simp: bench_cell_def getitem_def list_get_def Let_def)

lemma bench_inv_step:
  assumes "bench_inv R L C pre st" "i < nrows R" "j < ncols R" "i < length L" "j < length C"
  shows "\<exists>st'. bench_cell R L C i j st = Done st' \<and> bench_inv R L C (pre @ [(i, j)]) st'"
proof -
  obtain First FLT FCO B where st: "st = (First, FLT, FCO, B)" by (cases st)
  note step = bench_cell_step[OF assms(2-5), of First FLT FCO B]
  show ?thesis
  proof (cases "0 < elems R i j \<and> (First \<or> elems R i j < B)")
    case True
    have "bench_cell R L C i j st = Done (False, L ! i, C ! j, elems R i j)"
      using step[unfolded if_P[OF True]] st by simp
    moreover have "bench_inv R L C (pre @ [(i, j)]) (False, L ! i, C ! j, elems R i j)"
      using assms(1) True unfolding st bench_inv_def by (auto intro: order.trans less_imp_le)
    ultimately show ?thesis by blast
  next
    case False
    have "bench_cell R L C i j st = Done (First \<and> \<not> 0 < elems R i j, FLT, FCO, B)"
      using step[unfolded if_not_P[OF False]] st by simp
    moreover have "bench_inv R L C (pre @ [(i, j)]) (First \<and> \<not> 0 < elems R i j, FLT, FCO, B)"
      using assms(1) False unfolding st bench_inv_def by auto
    ultimately show ?thesis by blast
  qed
qed


lemma find_benchmark_inv:
  assumes "nrows R = length L" "ncols R = length C"
  shows "\<exists>st. find_benchmark R L C = Done st \<and>
           bench_inv R L C (List.product [0..<length L] [0..<length C]) st"
proof -
  let ?cells = "List.product [0..<length L] [0..<length C]"
  have e: "find_benchmark R L C =
      for_loop ?cells (\<lambda>(i, j). bench_cell R L C i j) (True, [], [], 1)"
    by (simp add: find_benchmark_def for_loop_product)
  have "\<exists>st. for_loop ?cells (\<lambda>(i, j). bench_cell R L C i j) (True, [], [], 1) = Done st \<and>
           bench_inv R L C ?cells st"
  proof (rule for_loop_steps)
    show "bench_inv R L C [] (True, [], [], 1)" by (simp add: bench_inv_def)
  next
    fix pre x s
    assume I: "bench_inv R L C pre s" and x: "x \<in> set ?cells"
    obtain i j where ij: "x = (i, j)" by (cases x)
    with x assms have r: "i < nrows R" "j < ncols R" "i < length L" "j < length C" by auto
    from bench_inv_step[OF I r] show
      "\<exists>s'. (case x of (i, j) \<Rightarrow> bench_cell R L C i j) s = Done s' \<and> bench_inv R L C (pre @ [x]) s'"
      by (simp add: ij)
  qed
  then show ?thesis by (simp add: e)
qed

lemma find_benchmark_spec:
  assumes "nrows R = length L" "ncols R = length C"
  shows "\<exists>First FLT FCO B. find_benchmark R L C = Done (First, FLT, FCO, B) \<and>
           (First \<longleftrightarrow> positives R = []) \<and> 0 < B \<and>
           (positives R = [] \<longrightarrow> FLT = [] \<and> FCO = [] \<and> B = 1) \<and>
           (positives R \<noteq> [] \<longrightarrow> B = Min (set (positives R)) \<and>
              (\<exists>i<length L. \<exists>j<length C. elems R i j = B \<and> FLT = L ! i \<and> FCO = C ! j))"
proof -
  from find_benchmark_inv[OF assms] obtain st where
    st: "find_benchmark R L C = Done st"
    "bench_inv R L C (List.product [0..<length L] [0..<length C]) st" by blast
  obtain First FLT FCO B where q: "st = (First, FLT, FCO, B)" by (cases st)
  have cells: "set (List.product [0..<length L] [0..<length C]) = {(i, j). i < length L \<and> j < length C}"
    by auto
  have P: "set (positives R) = {elems R i j |i j. i < length L \<and> j < length C \<and> 0 < elems R i j}"
    using assms by (simp add: set_positives)
  from st(2) have F: "First \<longleftrightarrow> (\<forall>i<length L. \<forall>j<length C. \<not> 0 < elems R i j)"
    and F1: "First \<longrightarrow> FLT = [] \<and> FCO = [] \<and> B = 1"
    and F2: "\<not> First \<longrightarrow> (\<exists>i<length L. \<exists>j<length C. elems R i j = B \<and> FLT = L ! i \<and> FCO = C ! j)"
    and F3: "\<not> First \<longrightarrow> (\<forall>i<length L. \<forall>j<length C. 0 < elems R i j \<longrightarrow> B \<le> elems R i j)"
    and B: "0 < B"
    unfolding q bench_inv_def cells by auto
  have E: "First \<longleftrightarrow> positives R = []"
  proof -
    have "positives R = [] \<longleftrightarrow> set (positives R) = {}" by simp
    also have "\<dots> \<longleftrightarrow> (\<forall>i<length L. \<forall>j<length C. \<not> 0 < elems R i j)"
      unfolding P by blast
    finally show ?thesis using F by simp
  qed
  have M: "B = Min (set (positives R))" if "positives R \<noteq> []"
  proof -
    from that E have nf: "\<not> First" by simp
    from F2 nf B have "B \<in> set (positives R)" unfolding P by blast
    moreover from F3 nf have "\<forall>x\<in>set (positives R). B \<le> x" unfolding P by blast
    ultimately show ?thesis by (intro Min_eqI[symmetric]) auto
  qed
  show ?thesis using st(1) q E B F1 F2 M by auto
qed

subsection \<open>The report\<close>

lemma summary_line_step:
  assumes "lang_tech T \<in> set LL" "comp_opt T \<in> set CL"
    "nrows R = length LL" "ncols R = length CL"
  shows "summary_line R LL CL B T w =
     Done (print (SummaryLine (lang_tech T) (comp_opt T)
             (elems R (position LL (lang_tech T)) (position CL (comp_opt T)))
             (elems R (position LL (lang_tech T)) (position CL (comp_opt T)) / B)) w)"
  using index_of_position[OF assms(1)] index_of_position[OF assms(2)] assms(3,4)
  by (simp add: summary_line_def getitem_def Let_def)

lemma summary_spec:
  assumes "\<forall>T\<in>set FT. lang_tech T \<in> set LL \<and> comp_opt T \<in> set CL"
    "nrows R = length LL" "ncols R = length CL"
  shows "summary FT R LL CL B w =
     Done (w\<lparr>terminal := terminal w
        @ [Text [[]], Text [''Summary of relative speeds:''], Text [[]]]
        @ map (\<lambda>T. SummaryLine (lang_tech T) (comp_opt T)
                 (elems R (position LL (lang_tech T)) (position CL (comp_opt T)))
                 (elems R (position LL (lang_tech T)) (position CL (comp_opt T)) / B)) FT\<rparr>)"
proof -
  let ?f = "\<lambda>T. SummaryLine (lang_tech T) (comp_opt T)
                 (elems R (position LL (lang_tech T)) (position CL (comp_opt T)))
                 (elems R (position LL (lang_tech T)) (position CL (comp_opt T)) / B)"
  let ?w0 = "print (Text [[]]) (print (Text [''Summary of relative speeds:'']) (print (Text [[]]) w))"
  have "\<exists>w'. for_loop FT (summary_line R LL CL B) ?w0 = Done w' \<and>
          w' = ?w0\<lparr>terminal := terminal ?w0 @ map ?f FT\<rparr>"
  proof (rule for_loop_steps[where I = "\<lambda>pre w'. w' = ?w0\<lparr>terminal := terminal ?w0 @ map ?f pre\<rparr>"])
    show "?w0 = ?w0\<lparr>terminal := terminal ?w0 @ map ?f []\<rparr>" by simp
  next
    fix pre :: "test list" and T :: test and s
    assume s: "s = ?w0\<lparr>terminal := terminal ?w0 @ map ?f pre\<rparr>" and T: "T \<in> set FT"
    from T assms(1) have m: "lang_tech T \<in> set LL" "comp_opt T \<in> set CL" by auto
    show "\<exists>s'. summary_line R LL CL B T s = Done s' \<and>
            s' = ?w0\<lparr>terminal := terminal ?w0 @ map ?f (pre @ [T])\<rparr>"
      unfolding summary_line_step[OF m assms(2,3)] s by (simp add: print_def)
  qed
  then show ?thesis by (simp add: summary_def print_def)
qed

lemma csv_fields:
  assumes "j < ncols R" "n \<le> nrows R"
  shows "for_loop [0..<n] (csv_field R B j) [] =
     Done (map (\<lambda>i. if 0 < elems R i j / B then Fixed2 (elems R i j / B) else Empty) [0..<n])"
proof -
  let ?g = "\<lambda>i. if 0 < elems R i j / B then Fixed2 (elems R i j / B) else Empty"
  have "\<exists>fs. for_loop [0..<n] (csv_field R B j) [] = Done fs \<and> fs = map ?g [0..<n]"
  proof (rule for_loop_steps[where I = "\<lambda>pre fs. fs = map ?g pre"])
    show "[] = map ?g []" by simp
  next
    fix pre i s
    assume s: "s = map ?g pre" and i: "i \<in> set [0..<n]"
    then have "i < nrows R" using assms(2) by simp
    then show "\<exists>s'. csv_field R B j i s = Done s' \<and> s' = map ?g (pre @ [i])"
      using assms(1) s by (simp add: csv_field_def getitem_def Let_def)
  qed
  then show ?thesis by simp
qed

lemma csv_spec:
  assumes "nrows R = length LL" "ncols R = length CL"
  shows "csv R LL CL B w =
     Done (w\<lparr>terminal := terminal w
        @ [Text [[]], Text [foldl (\<lambda>Line LangTech. Line @ '','' @ LangTech) ''Compiler'' LL]]
        @ map (\<lambda>CompOpt. CsvRow CompOpt
                 (map (\<lambda>i. if 0 < elems R i (position CL CompOpt) / B
                            then Fixed2 (elems R i (position CL CompOpt) / B) else Empty)
                    [0..<length LL])) CL\<rparr>)"
proof -
  let ?f = "\<lambda>CompOpt. CsvRow CompOpt
                 (map (\<lambda>i. if 0 < elems R i (position CL CompOpt) / B
                            then Fixed2 (elems R i (position CL CompOpt) / B) else Empty)
                    [0..<length LL])"
  let ?w0 = "print (Text [foldl (\<lambda>Line LangTech. Line @ '','' @ LangTech) ''Compiler'' LL])
          (print (Text [[]]) w)"
  have "\<exists>w'. for_loop CL (csv_row R LL CL B) ?w0 = Done w' \<and>
          w' = ?w0\<lparr>terminal := terminal ?w0 @ map ?f CL\<rparr>"
  proof (rule for_loop_steps[where I = "\<lambda>pre w'. w' = ?w0\<lparr>terminal := terminal ?w0 @ map ?f pre\<rparr>"])
    show "?w0 = ?w0\<lparr>terminal := terminal ?w0 @ map ?f []\<rparr>" by simp
  next
    fix pre CO s
    assume s: "s = ?w0\<lparr>terminal := terminal ?w0 @ map ?f pre\<rparr>" and CO: "CO \<in> set CL"
    from index_of_position[OF CO] have p: "index_of CL CO = Inr (position CL CO)"
      "position CL CO < ncols R" using assms(2) by simp_all
    have n: "length LL \<le> nrows R" using assms(1) by simp
    show "\<exists>s'. csv_row R LL CL B CO s = Done s' \<and>
            s' = ?w0\<lparr>terminal := terminal ?w0 @ map ?f (pre @ [CO])\<rparr>"
      unfolding csv_row_def p(1) sum.case csv_fields[OF p(2) n] outcome.case s
      by (simp add: print_def)
  qed
  then show ?thesis by (simp add: csv_def print_def)
qed


lemma record_result_nonneg:
  "nonneg R \<Longrightarrow> record_result R i j K = Inr R' \<Longrightarrow> nonneg R'"
  by (auto simp: record_result_def getitem_def setitem_def nonneg_def
      split: if_splits sum.splits)

lemma run_test_table:
  "fst (state_of (run_test os Nx Ny LL CL T (R, w))) = R \<or>
   (\<exists>i j K. record_result R i j K = Inr (fst (state_of (run_test os Nx Ny LL CL T (R, w)))))"
proof (cases "BuildAndTimeProgram os (build_cmd1 T) (build_cmd2 T) (exec_cmd T) (nrpt T) Nx Ny
              (cleanup_cmd T) w")
  case (Raise e w1)
  show ?thesis unfolding run_test_Raise[OF Raise] by simp
next
  case (Return r w1)
  obtain Status Secs Errors where r: "r = (Status, Secs, Errors)" by (cases r)
  note Ret = Return[unfolded r]
  show ?thesis
  proof (cases "truthy Status")
    case True
    show ?thesis unfolding run_test_error[OF Ret True] by simp
  next
    case False
    show ?thesis
    proof (cases "nrpt T = 0")
      case True
      show ?thesis unfolding run_test_zero[OF Ret False True] by simp
    next
      case nz: False
      show ?thesis
      proof (cases "index_of LL (lang_tech T)")
        case (Inl e)
        then show ?thesis using nz False
          unfolding run_test_def Let_def prod.case Ret result.case
          by (simp add: py_div_def)
      next
        case i0: (Inr i0)
        show ?thesis
        proof (cases "index_of CL (comp_opt T)")
          case (Inl e)
          then show ?thesis using nz False i0
            unfolding run_test_def Let_def prod.case Ret result.case
            by (simp add: py_div_def)
        next
          case j0: (Inr j0)
          show ?thesis
          proof (cases "record_result R i0 j0 (Secs / real_of_int (nrpt T) * 1000)")
            case (Inl e)
            then show ?thesis using nz False i0 j0
              unfolding run_test_def Let_def prod.case Ret result.case
              by (simp add: py_div_def)
          next
            case (Inr R')
            show ?thesis unfolding run_test_timed[OF Ret False nz i0 j0 Inr]
              using Inr by auto
          qed
        qed
      qed
    qed
  qed
qed

lemma run_test_nonneg:
  assumes "nonneg (fst st)"
  shows "nonneg (fst (state_of (run_test os Nx Ny LL CL T st)))"
proof -
  obtain R w where st: "st = (R, w)" by (cases st)
  from run_test_table[of os Nx Ny LL CL T R w] assms show ?thesis
    unfolding st by (auto dest: record_result_nonneg)
qed

lemma run_passes_nonneg: "nonneg (fst (state_of (run_passes os FT Ntests Nx Ny w)))"
proof -
  have p: "nonneg (fst (state_of (run_pass os FT Ntests Nx Ny ITest st)))" if "nonneg (fst st)" for ITest st
    unfolding run_pass_def
    by (rule for_loop_inv[where P = "\<lambda>s. nonneg (fst s)"]) (simp_all add: run_test_nonneg that)
  show ?thesis
    unfolding run_passes_def
  proof (rule for_loop_inv[where P = "\<lambda>s. nonneg (fst s)"])
    show "nonneg (fst (zeros (length (LangTechList FT)) (length (CompOptList FT)), w))"
      by (simp add: nonneg_def zeros_def)
  qed (rule p)
qed

lemma run_passes_shape:
  "nrows (fst (state_of (run_passes os FT Ntests Nx Ny w))) = length (LangTechList FT)"
  "ncols (fst (state_of (run_passes os FT Ntests Nx Ny w))) = length (CompOptList FT)"
  using run_passes_inv[of w FT os Ntests Nx Ny] by (simp_all add: table_inv_def)

subsection \<open>The main program after the passes\<close>

lemma main_report:
  assumes lv: "list_versions os w = Done w1"
    and rp: "run_passes os FT Ntests Nx Ny w1 = Done (R, w2)"
  shows "\<exists>First FLT FCO B.
     find_benchmark R (LangTechList FT) (CompOptList FT) = Done (First, FLT, FCO, B) \<and>
     main os FT Ntests Nx Ny w =
       Done (w2\<lparr>terminal := terminal w2
          @ [Text [''Fastest combination is '', FLT, ''and'', FCO]]
          @ [Text [[]], Text [''Summary of relative speeds:''], Text [[]]]
          @ map (\<lambda>T. SummaryLine (lang_tech T) (comp_opt T)
                   (elems R (position (LangTechList FT) (lang_tech T))
                            (position (CompOptList FT) (comp_opt T)))
                   (elems R (position (LangTechList FT) (lang_tech T))
                            (position (CompOptList FT) (comp_opt T)) / B)) FT
          @ [Text [[]],
             Text [foldl (\<lambda>Line LangTech. Line @ '','' @ LangTech) ''Compiler''
                     (LangTechList FT)]]
          @ map (\<lambda>CompOpt. CsvRow CompOpt
                   (map (\<lambda>i. if 0 < elems R i (position (CompOptList FT) CompOpt) / B
                              then Fixed2 (elems R i (position (CompOptList FT) CompOpt) / B)
                              else Empty)
                      [0..<length (LangTechList FT)])) (CompOptList FT)\<rparr>)"
proof -
  let ?LL = "LangTechList FT" and ?CL = "CompOptList FT"
  from run_passes_shape[of os FT Ntests Nx Ny w1] rp
  have sh: "nrows R = length ?LL" "ncols R = length ?CL" by simp_all
  from find_benchmark_spec[OF sh] obtain First FLT FCO B where
    fb: "find_benchmark R ?LL ?CL = Done (First, FLT, FCO, B)" by blast
  have lab: "\<forall>T\<in>set FT. lang_tech T \<in> set ?LL \<and> comp_opt T \<in> set ?CL"
    by (simp add: LangTechList_props(2) CompOptList_props(2))
  note su = summary_spec[OF lab sh, of B]
  note cs = csv_spec[OF sh, of B]
  have "main os FT Ntests Nx Ny w =
      csv R ?LL ?CL B
        (state_of (summary FT R ?LL ?CL B
           (print (Text [''Fastest combination is '', FLT, ''and'', FCO]) w2)))"
    unfolding main_def lv rp outcome.case Let_def fst_conv snd_conv fb prod.case su
    by simp
  then show ?thesis
    unfolding su cs using fb by (simp add: print_def)
qed



text \<open>
  Claim C6. When the passes have ended and the table has a positive entry, the benchmark
  is the smallest positive entry and the fastest labels are those of a cell that holds
  it. The summary then has, for every test, a line with its cell and the cell divided by
  the benchmark, which is 1 for a cell equal to the benchmark. The comma-separated
  matrix has, for every compiler/options and every language/technique, the empty field
  where the cell is zero and otherwise the same quotient in the format
  \<^verbatim>\<open>%.2f\<close>.
\<close>

theorem report_relative_speeds:
  assumes lv: "list_versions os w = Done w1"
    and rp: "run_passes os FT Ntests Nx Ny w1 = Done (R, w2)"
    and pos: "positives R \<noteq> []"
  shows "\<exists>FLT FCO B.
     find_benchmark R (LangTechList FT) (CompOptList FT) = Done (False, FLT, FCO, B) \<and>
     B = Min (set (positives R)) \<and> B / B = 1 \<and>
     (\<exists>i<length (LangTechList FT). \<exists>j<length (CompOptList FT).
        elems R i j = B \<and> FLT = LangTechList FT ! i \<and> FCO = CompOptList FT ! j) \<and>
     main os FT Ntests Nx Ny w =
       Done (w2\<lparr>terminal := terminal w2
          @ [Text [''Fastest combination is '', FLT, ''and'', FCO]]
          @ [Text [[]], Text [''Summary of relative speeds:''], Text [[]]]
          @ map (\<lambda>T. SummaryLine (lang_tech T) (comp_opt T)
                   (elems R (position (LangTechList FT) (lang_tech T))
                            (position (CompOptList FT) (comp_opt T)))
                   (elems R (position (LangTechList FT) (lang_tech T))
                            (position (CompOptList FT) (comp_opt T)) / B)) FT
          @ [Text [[]],
             Text [foldl (\<lambda>Line LangTech. Line @ '','' @ LangTech) ''Compiler''
                     (LangTechList FT)]]
          @ map (\<lambda>CompOpt. CsvRow CompOpt
                   (map (\<lambda>i. if elems R i (position (CompOptList FT) CompOpt) = 0 then Empty
                              else Fixed2 (elems R i (position (CompOptList FT) CompOpt) / B))
                      [0..<length (LangTechList FT)])) (CompOptList FT)\<rparr>)"
proof -
  let ?LL = "LangTechList FT" and ?CL = "CompOptList FT"
  from run_passes_shape[of os FT Ntests Nx Ny w1] rp
  have sh: "nrows R = length ?LL" "ncols R = length ?CL" by simp_all
  from run_passes_nonneg[of os FT Ntests Nx Ny w1] rp have nn: "nonneg R" by simp
  from main_report[OF lv rp] obtain First FLT FCO B where
    fb: "find_benchmark R ?LL ?CL = Done (First, FLT, FCO, B)"
    and mn: "main os FT Ntests Nx Ny w =
       Done (w2\<lparr>terminal := terminal w2
          @ [Text [''Fastest combination is '', FLT, ''and'', FCO]]
          @ [Text [[]], Text [''Summary of relative speeds:''], Text [[]]]
          @ map (\<lambda>T. SummaryLine (lang_tech T) (comp_opt T)
                   (elems R (position ?LL (lang_tech T)) (position ?CL (comp_opt T)))
                   (elems R (position ?LL (lang_tech T)) (position ?CL (comp_opt T)) / B)) FT
          @ [Text [[]],
             Text [foldl (\<lambda>Line LangTech. Line @ '','' @ LangTech) ''Compiler'' ?LL]]
          @ map (\<lambda>CompOpt. CsvRow CompOpt
                   (map (\<lambda>i. if 0 < elems R i (position ?CL CompOpt) / B
                              then Fixed2 (elems R i (position ?CL CompOpt) / B)
                              else Empty)
                      [0..<length ?LL])) ?CL\<rparr>)"
    by blast
  from find_benchmark_spec[OF sh] fb pos
  have F: "\<not> First" and B: "0 < B" and M: "B = Min (set (positives R))"
    and W: "\<exists>i<length ?LL. \<exists>j<length ?CL. elems R i j = B \<and> FLT = ?LL ! i \<and> FCO = ?CL ! j"
    by auto
  have fld: "(if 0 < elems R i (position ?CL CO) / B
              then Fixed2 (elems R i (position ?CL CO) / B) else Empty)
           = (if elems R i (position ?CL CO) = 0 then Empty
              else Fixed2 (elems R i (position ?CL CO) / B))"
    if "i \<in> set [0..<length ?LL]" "CO \<in> set ?CL" for i CO
  proof -
    from index_of_position[OF that(2)] have "position ?CL CO < ncols R" using sh by simp
    moreover from that(1) have "i < nrows R" using sh by simp
    ultimately have "0 \<le> elems R i (position ?CL CO)" using nn by (simp add: nonneg_def)
    then show ?thesis using B by (auto simp: zero_less_divide_iff)
  qed
  have rows: "map (\<lambda>CompOpt. CsvRow CompOpt
                   (map (\<lambda>i. if 0 < elems R i (position ?CL CompOpt) / B
                              then Fixed2 (elems R i (position ?CL CompOpt) / B)
                              else Empty)
                      [0..<length ?LL])) ?CL
      = map (\<lambda>CompOpt. CsvRow CompOpt
                   (map (\<lambda>i. if elems R i (position ?CL CompOpt) = 0 then Empty
                              else Fixed2 (elems R i (position ?CL CompOpt) / B))
                      [0..<length ?LL])) ?CL"
    by (intro map_cong refl arg_cong[where f = "CsvRow _"]) (rule fld)
  from B have one: "B / B = 1" by simp
  from fb F have fb': "find_benchmark R ?LL ?CL = Done (False, FLT, FCO, B)" by simp
  show ?thesis
    by (intro exI[of _ FLT] exI[of _ FCO] exI[of _ B] conjI fb' M one W mn[unfolded rows])
qed


lemma list_versions_quiet:
  "\<exists>w1. list_versions os_quiet w0 = Done w1 \<and>
        terminal w1 = [Text [[]], Text [''Versions:''], Text [[]]]"
  by (simp add: list_versions_def versions_def ListVersion_def ExecuteCommand_def os_quiet_def
      w0_def print_def split_ws_def is_space_def decodes_def truthy_def Let_def)

lemma BuildAndTimeProgram_Tcl_quiet:
  "BuildAndTimeProgram os_quiet [] [] ''tclsh ctest.tcl'' 200 2000 10 [] w =
     Return (None, 400 / 199, Str [])
       (w\<lparr>history := history w @ [[''tclsh'', ''ctest.tcl'', ''200'', ''2000'', ''10''],
                   [''tclsh'', ''ctest.tcl'', ''1'', ''2000'', ''10'']],
          clock := clock w + 4\<rparr>)"
proof -
  have r: "run_command ''tclsh ctest.tcl'' 200 2000 10 = ''tclsh ctest.tcl 200 2000 10''"
    "run_command ''tclsh ctest.tcl'' 1 2000 10 = ''tclsh ctest.tcl 1 2000 10''"
    by (simp_all add: run_command_def str_int_def digits.simps)
  have s: "split_ws ''tclsh ctest.tcl 200 2000 10'' = [''tclsh'', ''ctest.tcl'', ''200'', ''2000'', ''10'']"
    "split_ws ''tclsh ctest.tcl 1 2000 10'' = [''tclsh'', ''ctest.tcl'', ''1'', ''2000'', ''10'']"
    by (simp_all add: split_ws_def is_space_def)
  show ?thesis
    by (simp add: BuildAndTimeProgram_def build_def time_program_def cleanup_def r s
        ExecuteCommand_def os_quiet_def decodes_def py_div_def Let_def)
qed

lemma Tcl_fields:
  "lang_tech Tcl = ''Tcl : raw''" "comp_opt Tcl = ''tclsh''" "build_cmd1 Tcl = []"
  "build_cmd2 Tcl = []" "exec_cmd Tcl = ''tclsh ctest.tcl''" "nrpt Tcl = 200"
  "cleanup_cmd Tcl = []"
  by (simp_all add: Tcl_def)

lemma run_passes_Tcl_quiet:
  "\<exists>R w2. run_passes os_quiet [Tcl] 1 2000 10 w = Done (R, w2) \<and>
      nrows R = 1 \<and> ncols R = 1 \<and> elems R 0 0 = 2000 / 199"
proof -
  have u: "py_range 1 = [0]" by (simp add: py_range_def)
  show ?thesis
    unfolding run_passes_def run_pass_def labels_Tcl u
    by (simp add: run_test_def Tcl_fields BuildAndTimeProgram_Tcl_quiet truthy_def py_div_def
        record_result_def getitem_def setitem_def zeros_def Let_def)
qed

theorem report_relative_speeds_witness:
  "find_benchmark
     (fst (state_of (run_passes os_quiet [Tcl] 1 2000 10 (state_of (list_versions os_quiet w0)))))
     (LangTechList [Tcl]) (CompOptList [Tcl])
     = Done (False, ''Tcl : raw'', ''tclsh'', 2000 / 199) \<and>
   last (terminal (state_of (main os_quiet [Tcl] 1 2000 10 w0))) = CsvRow ''tclsh'' [Fixed2 1]"
proof -
  from list_versions_quiet obtain w1 where lv: "list_versions os_quiet w0 = Done w1" by blast
  from run_passes_Tcl_quiet[of w1] obtain R w2 where
    rp: "run_passes os_quiet [Tcl] 1 2000 10 w1 = Done (R, w2)"
    and R: "nrows R = 1" "ncols R = 1" "elems R 0 0 = 2000 / 199" by blast
  have pos: "positives R = [2000 / 199]" by (simp add: positives_def R)
  then have pos': "positives R \<noteq> []" by simp
  from report_relative_speeds[OF lv rp pos'] obtain FLT FCO B where
    fb: "find_benchmark R (LangTechList [Tcl]) (CompOptList [Tcl]) = Done (False, FLT, FCO, B)"
    and B: "B = Min (set (positives R))"
    and W: "\<exists>i<length (LangTechList [Tcl]). \<exists>j<length (CompOptList [Tcl]).
        elems R i j = B \<and> FLT = LangTechList [Tcl] ! i \<and> FCO = CompOptList [Tcl] ! j"
    and mn: "main os_quiet [Tcl] 1 2000 10 w0 =
       Done (w2\<lparr>terminal := terminal w2
          @ [Text [''Fastest combination is '', FLT, ''and'', FCO]]
          @ [Text [[]], Text [''Summary of relative speeds:''], Text [[]]]
          @ map (\<lambda>T. SummaryLine (lang_tech T) (comp_opt T)
                   (elems R (position (LangTechList [Tcl]) (lang_tech T))
                            (position (CompOptList [Tcl]) (comp_opt T)))
                   (elems R (position (LangTechList [Tcl]) (lang_tech T))
                            (position (CompOptList [Tcl]) (comp_opt T)) / B)) [Tcl]
          @ [Text [[]],
             Text [foldl (\<lambda>Line LangTech. Line @ '','' @ LangTech) ''Compiler''
                     (LangTechList [Tcl])]]
          @ map (\<lambda>CompOpt. CsvRow CompOpt
                   (map (\<lambda>i. if elems R i (position (CompOptList [Tcl]) CompOpt) = 0 then Empty
                              else Fixed2 (elems R i (position (CompOptList [Tcl]) CompOpt) / B))
                      [0..<length (LangTechList [Tcl])])) (CompOptList [Tcl])\<rparr>)"
    by blast
  from B pos have B': "B = 2000 / 199" by simp
  from W have L: "FLT = ''Tcl : raw''" "FCO = ''tclsh''" by (auto simp: labels_Tcl)
  have 1: "find_benchmark (fst (state_of (run_passes os_quiet [Tcl] 1 2000 10
              (state_of (list_versions os_quiet w0)))))
     (LangTechList [Tcl]) (CompOptList [Tcl])
     = Done (False, ''Tcl : raw'', ''tclsh'', 2000 / 199)"
    using fb by (simp add: lv rp L B')
  have 2: "last (terminal (state_of (main os_quiet [Tcl] 1 2000 10 w0))) = CsvRow ''tclsh'' [Fixed2 1]"
    unfolding mn by (simp add: labels_Tcl position_def R B')
  from 1 2 show ?thesis ..
qed








end
